theory Spec2Isabelle
  imports Main
begin

section \<open>Configuration (boardgen.py, lines 11-45)\<close>

type_synonym rgb = "int \<times> int \<times> int"

record SquareConfig =
  light_color :: rgb
  dark_color :: rgb
  light_highlight_color :: rgb
  dark_highlight_color :: rgb

text \<open>The two properties of \<open>SquareConfig\<close> return pairs that the renderer indexes
  with 0 or 1; they are two-element lists here.\<close>

definition SquareConfig_color :: "SquareConfig \<Rightarrow> rgb list" where
  "SquareConfig_color c = [SquareConfig.light_color c, SquareConfig.dark_color c]"

definition SquareConfig_highlight_color :: "SquareConfig \<Rightarrow> rgb list" where
  "SquareConfig_highlight_color c = [light_highlight_color c, dark_highlight_color c]"

record TextConfig =
  enabled :: bool
  light_color :: rgb
  dark_color :: rgb
  font_size :: int
  padding :: int

definition TextConfig_color :: "TextConfig \<Rightarrow> rgb list" where
  "TextConfig_color c = [TextConfig.light_color c, TextConfig.dark_color c]"

record Config =
  inkscape_location :: string
  piece_theme :: string
  square :: SquareConfig
  text' :: TextConfig

definition default_SquareConfig :: SquareConfig where
  "default_SquareConfig =
     \<lparr>SquareConfig.light_color = (240, 217, 181), dark_color = (181, 136, 99),
      light_highlight_color = (205, 210, 106), dark_highlight_color = (170, 162, 58)\<rparr>"

definition default_TextConfig :: TextConfig where
  "default_TextConfig =
     \<lparr>enabled = True, light_color = (240, 217, 181), dark_color = (148, 111, 81),
      font_size = 24, padding = 8\<rparr>"

definition default_Config :: Config where
  "default_Config =
     \<lparr>inkscape_location = ''inkscape'', piece_theme = ''cburnett'',
      square = default_SquareConfig, text' = default_TextConfig\<rparr>"


section \<open>Pieces and their symbols\<close>

text \<open>\<open>chess.Piece\<close> is a piece type and a colour (\<open>True\<close> is white). Its \<open>symbol()\<close>
  is the letter of the type, upper case for white.\<close>

datatype PieceType = PAWN | KNIGHT | BISHOP | ROOK | QUEEN | KING

datatype Piece = Piece (piece_type: PieceType) (piece_color: bool)

fun piece_symbol :: "PieceType \<Rightarrow> string" where
  "piece_symbol PAWN = ''p''"
| "piece_symbol KNIGHT = ''n''"
| "piece_symbol BISHOP = ''b''"
| "piece_symbol ROOK = ''r''"
| "piece_symbol QUEEN = ''q''"
| "piece_symbol KING = ''k''"

text \<open>Python's \<open>str.upper\<close> and \<open>str.islower\<close> on ASCII text.\<close>

definition is_lower_char :: "char \<Rightarrow> bool" where
  "is_lower_char c = (97 \<le> (of_char c :: nat) \<and> (of_char c :: nat) \<le> 122)"

definition is_upper_char :: "char \<Rightarrow> bool" where
  "is_upper_char c = (65 \<le> (of_char c :: nat) \<and> (of_char c :: nat) \<le> 90)"

definition upper_char :: "char \<Rightarrow> char" where
  "upper_char c = (if is_lower_char c then char_of ((of_char c :: nat) - 32) else c)"

definition upper :: "string \<Rightarrow> string" where
  "upper s = map upper_char s"

definition islower :: "string \<Rightarrow> bool" where
  "islower s = (list_ex is_lower_char s \<and> \<not> list_ex is_upper_char s)"

definition symbol :: "Piece \<Rightarrow> string" where
  "symbol p = (if piece_color p then upper (piece_symbol (piece_type p))
               else piece_symbol (piece_type p))"

text \<open>Python's \<open>str(n)\<close> for an integer.\<close>

fun str_nat :: "nat \<Rightarrow> string" where
  "str_nat n = (if n < 10 then [char_of (48 + n)]
                else str_nat (n div 10) @ [char_of (48 + n mod 10)])"

declare str_nat.simps [simp del]

definition str :: "int \<Rightarrow> string" where
  "str i = (if i < 0 then ''-'' @ str_nat (nat (- i)) else str_nat (nat i))"


section \<open>The world outside the program\<close>

text \<open>A glyph image has a width, a height and, for each of its pixels, a colour and an
  alpha value. Files hold bytes; \<open>Image.open(..., formats=["png"])\<close> either decodes them
  or raises. A spawned process either fails to start or exits with a return code and a
  standard-output stream. Whether there is memory for an image of a given size is up to
  the machine. Every access to the file system or to a process is recorded in
  \<open>events\<close>, newest last.\<close>

record Image =
  img_width :: int
  img_height :: int
  img_px :: "int \<Rightarrow> int \<Rightarrow> rgb \<times> int"

type_synonym path = "string list"
type_synonym bytes = "nat list"

datatype proc = SpawnFailed | Exited int "bytes option"

datatype event = ListDir path | Exists path | OpenFile path | Spawn "string list"

record world =
  dirs :: "path \<Rightarrow> (string \<times> bool) list option"
  files :: "path \<Rightarrow> bytes option"
  png_open :: "bytes \<Rightarrow> Image option"
  popen :: "string list \<Rightarrow> proc"
  can_allocate :: "int \<times> int \<Rightarrow> bool"
  events :: "event list"

definition log_event :: "event \<Rightarrow> world \<Rightarrow> world" where
  "log_event e w = w\<lparr>events := events w @ [e]\<rparr>"

datatype error =
    RuntimeError string
  | FileNotFoundError
  | UnidentifiedImageError
  | ValueError
  | IndexError
  | AttributeError
  | OverflowError
  | MemoryError
  | OSError

definition path_str :: "path \<Rightarrow> string" where
  "path_str p = concat (map (\<lambda>c. ''/'' @ c) p)"


section \<open>PieceImage (boardgen.py, lines 48-111)\<close>

record PieceImage =
  size' :: int
  config :: Config
  cache :: "string \<Rightarrow> Image option"

definition PIECE_LOCATION :: path where
  "PIECE_LOCATION = [''assets'', ''pieces'']"

definition CACHE_LOCATION :: path where
  "CACHE_LOCATION = [''assets'', ''cache'']"

text \<open>\<open>list_themes\<close>: the names of the entries of \<open>PIECE_LOCATION\<close> that are
  directories; \<open>iterdir\<close> raises when the directory itself is missing.\<close>

definition list_themes :: "world \<Rightarrow> (error + string list) \<times> world" where
  "list_themes w =
     (let w1 = log_event (ListDir PIECE_LOCATION) w in
      case dirs w PIECE_LOCATION of
        None \<Rightarrow> (Inl FileNotFoundError, w1)
      | Some entries \<Rightarrow> (Inr (map fst (filter snd entries)), w1))"

definition theme_missing_message :: "string \<Rightarrow> string" where
  "theme_missing_message theme =
     ''Piece theme '' @ [CHR 0x22] @ theme @ [CHR 0x22] @ '' does not exist.''"

definition PieceImage_init :: "world \<Rightarrow> int \<Rightarrow> Config \<Rightarrow> (error + PieceImage) \<times> world" where
  "PieceImage_init w sz cfg =
     (let self = \<lparr>size' = sz, config = cfg, cache = Map.empty\<rparr> in
      case list_themes w of
        (Inl e, w1) \<Rightarrow> (Inl e, w1)
      | (Inr themes, w1) \<Rightarrow>
          if piece_theme (config self) \<notin> set themes
          then (Inl (RuntimeError (theme_missing_message (piece_theme (config self)))), w1)
          else (Inr self, w1))"

definition piece_to_filename :: "Piece \<Rightarrow> string \<Rightarrow> string" where
  "piece_to_filename piece extension =
     (let psym = symbol piece in
      if islower psym then ''b'' @ upper psym @ extension
      else ''w'' @ psym @ extension)"

definition cache_filepath :: "PieceImage \<Rightarrow> Piece \<Rightarrow> path" where
  "cache_filepath self piece =
     CACHE_LOCATION @ [piece_theme (config self), str (size' self),
                       piece_to_filename piece ''.png'']"

text \<open>\<open>get_piece_from_cache\<close> returns the image, or \<open>None\<close> by falling off its end.\<close>

definition get_piece_from_cache ::
  "PieceImage \<Rightarrow> world \<Rightarrow> Piece \<Rightarrow> (error + Image option) \<times> world" where
  "get_piece_from_cache self w piece =
     (let psym = symbol piece in
      case cache self psym of
        Some img \<Rightarrow> (Inr (Some img), w)
      | None \<Rightarrow>
          (let filepath = cache_filepath self piece;
               w1 = log_event (Exists filepath) w in
           case files w filepath of
             None \<Rightarrow> (Inr None, w1)
           | Some content \<Rightarrow>
               (let w2 = log_event (OpenFile filepath) w1 in
                case png_open w content of
                  None \<Rightarrow> (Inl UnidentifiedImageError, w2)
                | Some img \<Rightarrow> (Inr (Some img), w2))))"

definition svg_filepath :: "PieceImage \<Rightarrow> Piece \<Rightarrow> path" where
  "svg_filepath self piece =
     PIECE_LOCATION @ [piece_theme (config self), piece_to_filename piece ''.svg'']"

definition inkscape_args :: "PieceImage \<Rightarrow> Piece \<Rightarrow> string list" where
  "inkscape_args self piece =
     [inkscape_location (config self), path_str (svg_filepath self piece),
      ''-w'', str (size' self), ''--export-type'', ''png'', ''-o'', ''-'']"

text \<open>\<open>render\<close>: an image object is always true in a condition, so \<open>if cached_image\<close>
  tests that \<open>get_piece_from_cache\<close> did not return \<open>None\<close>. \<open>Popen\<close> raises when the
  program cannot be started.\<close>

definition PieceImage_render ::
  "PieceImage \<Rightarrow> world \<Rightarrow> Piece \<Rightarrow> (error + Image) \<times> PieceImage \<times> world" where
  "PieceImage_render self w piece =
     (case get_piece_from_cache self w piece of
        (Inl e, w1) \<Rightarrow> (Inl e, self, w1)
      | (Inr (Some cached_image), w1) \<Rightarrow> (Inr cached_image, self, w1)
      | (Inr None, w1) \<Rightarrow>
          (let args = inkscape_args self piece;
               w2 = log_event (Spawn args) w1 in
           case popen w args of
             SpawnFailed \<Rightarrow> (Inl FileNotFoundError, self, w2)
           | Exited rcode out \<Rightarrow>
               if rcode \<noteq> 0 then (Inl (RuntimeError ''inkscape app error''), self, w2)
               else (case out of
                       Some content \<Rightarrow>
                         (case png_open w content of
                            None \<Rightarrow> (Inl UnidentifiedImageError, self, w2)
                          | Some piece_image \<Rightarrow>
                              (Inr piece_image,
                               self\<lparr>cache := (cache self)(symbol piece \<mapsto> piece_image)\<rparr>,
                               w2))
                     | None \<Rightarrow> (Inl (RuntimeError ''inkscape file error''), self, w2))))"


section \<open>FenToImage (boardgen.py, lines 114-199)\<close>

text \<open>\<open>chess.SQUARES\<close> is \<open>list(range(64))\<close>, square a1 first; a square is its index,
  its file is \<open>square & 7\<close> and its rank \<open>square >> 3\<close>, that is \<open>mod 8\<close> and \<open>div 8\<close>. Indexing a Python list accepts
  a negative index down to minus the length and raises \<open>IndexError\<close> beyond.\<close>

type_synonym Square = int

definition SQUARES :: "Square list" where
  "SQUARES = [0..63]"

definition square_file :: "Square \<Rightarrow> int" where
  "square_file sq = sq mod 8"

definition square_rank :: "Square \<Rightarrow> int" where
  "square_rank sq = sq div 8"

definition A1 :: Square where "A1 = 0"

definition A8 :: Square where "A8 = 56"

definition py_index :: "'a list \<Rightarrow> int \<Rightarrow> error + 'a" where
  "py_index xs i =
     (let n = int (length xs) in
      if 0 \<le> i \<and> i < n then Inr (xs ! nat i)
      else if - n \<le> i \<and> i < 0 then Inr (xs ! nat (n + i))
      else Inl IndexError)"

text \<open>The canvas is the \<open>PIL\<close> image together with its \<open>ImageDraw\<close>: its size and the
  drawing calls made on it, oldest first, each with the arguments the program passed.\<close>

type_synonym Font = "path \<times> int"

datatype draw_op =
    Rectangle "int \<times> int \<times> int \<times> int" rgb
  | Text "int \<times> int" string rgb string Font
  | Paste Image "int \<times> int"

record Canvas =
  canvas_size :: "int \<times> int"
  ops :: "draw_op list"

definition draw :: "draw_op \<Rightarrow> Canvas \<Rightarrow> Canvas" where
  "draw op im = im\<lparr>ops := ops im @ [op]\<rparr>"

record FenToImage =
  board :: "Square \<Rightarrow> Piece option"
  square_size :: int
  config :: Config
  text_config :: TextConfig
  square_config :: SquareConfig
  piece_drawer :: PieceImage
  font :: Font
  image :: "Canvas option"

definition FONT_LOCATION :: path where
  "FONT_LOCATION = [''assets'', ''NotoSans-Bold.ttf'']"

text \<open>The constructor, from the position that \<open>Board(fen)\<close> parsed.
  \<open>ImageFont.truetype\<close> raises \<open>OSError\<close> when it cannot open the font file.\<close>

definition FenToImage_init ::
  "world \<Rightarrow> (Square \<Rightarrow> Piece option) \<Rightarrow> Config \<Rightarrow> int \<Rightarrow> (error + FenToImage) \<times> world" where
  "FenToImage_init w b cfg sq_size =
     (case PieceImage_init w sq_size cfg of
        (Inl e, w1) \<Rightarrow> (Inl e, w1)
      | (Inr drawer, w1) \<Rightarrow>
          (let w2 = log_event (OpenFile FONT_LOCATION) w1 in
           case files w FONT_LOCATION of
             None \<Rightarrow> (Inl OSError, w2)
           | Some content \<Rightarrow>
               (Inr \<lparr>board = b, square_size = sq_size, config = cfg,
                     text_config = text' cfg, square_config = square cfg,
                     piece_drawer = drawer,
                     font = (FONT_LOCATION, font_size (text' cfg)),
                     image = None\<rparr>, w2)))"

text \<open>\<open>Image.new\<close> refuses a negative width or height with \<open>ValueError\<close>; it passes
  them on as C integers, so from \<open>2 ^ 31\<close> on it raises \<open>OverflowError\<close>; and it raises
  \<open>MemoryError\<close> when an image of that size cannot be allocated.\<close>

definition init_image :: "FenToImage \<Rightarrow> world \<Rightarrow> error + FenToImage" where
  "init_image self w =
     (let sz = square_size self * 8 in
      if sz < 0 then Inl ValueError
      else if 2 ^ 31 \<le> sz then Inl OverflowError
      else if \<not> can_allocate w (sz, sz) then Inl MemoryError
      else Inr (self\<lparr>image := Some \<lparr>canvas_size = (sz, sz), ops = []\<rparr>\<rparr>))"

definition get_square_at :: "int \<Rightarrow> int \<Rightarrow> error + Square" where
  "get_square_at x y = py_index SQUARES (x + (7 - y) * 8)"

text \<open>\<open>(x + y) % 2\<close> is 0 or 1 for every pair of integers, in Python as in HOL, so the
  lookups in the two-element colour tuples never leave their range.\<close>

definition render_square_background ::
  "FenToImage \<Rightarrow> int \<Rightarrow> int \<Rightarrow> Square list \<Rightarrow> error + FenToImage" where
  "render_square_background self x y highlighted_squares =
     (let rectx = x * square_size self;
          recty = y * square_size self;
          colors = SquareConfig_color (square_config self);
          highlight_colors = SquareConfig_highlight_color (square_config self);
          fill_color = colors ! nat ((x + y) mod 2) in
      case get_square_at x y of
        Inl e \<Rightarrow> Inl e
      | Inr sq \<Rightarrow>
          (let fill_color = (if sq \<in> set highlighted_squares
                             then highlight_colors ! nat ((x + y) mod 2)
                             else fill_color) in
           case image self of
             None \<Rightarrow> Inl AttributeError
           | Some im \<Rightarrow>
               Inr (self\<lparr>image := Some (draw
                      (Rectangle (rectx, recty, rectx + square_size self,
                                  recty + square_size self) fill_color) im)\<rparr>)))"

definition draw_file_label :: "FenToImage \<Rightarrow> int \<Rightarrow> int \<Rightarrow> error + FenToImage" where
  "draw_file_label self x y =
     (let rectx = x * square_size self;
          recty = y * square_size self;
          htext = ''abcdefgh'';
          text_colors = TextConfig_color (text_config self);
          text_padding = padding (text_config self) in
      case image self of
        None \<Rightarrow> Inl AttributeError
      | Some im \<Rightarrow>
          (case py_index htext x of
             Inl e \<Rightarrow> Inl e
           | Inr ch \<Rightarrow>
               Inr (self\<lparr>image := Some (draw
                      (Text (rectx + text_padding, recty + square_size self - text_padding)
                            [ch] (text_colors ! nat (x mod 2)) ''ls'' (font self)) im)\<rparr>)))"

definition draw_rank_label :: "FenToImage \<Rightarrow> int \<Rightarrow> int \<Rightarrow> error + FenToImage" where
  "draw_rank_label self x y =
     (let rectx = x * square_size self;
          recty = y * square_size self;
          vtext = ''87654321'';
          text_colors = TextConfig_color (text_config self);
          text_padding = padding (text_config self) in
      case image self of
        None \<Rightarrow> Inl AttributeError
      | Some im \<Rightarrow>
          (case py_index vtext y of
             Inl e \<Rightarrow> Inl e
           | Inr ch \<Rightarrow>
               Inr (self\<lparr>image := Some (draw
                      (Text (rectx + square_size self - text_padding, recty + text_padding)
                            [ch] (text_colors ! nat (y mod 2)) ''rt'' (font self)) im)\<rparr>)))"

text \<open>\<open>_render_square_location\<close>: the two \<open>if\<close> statements in sequence, the first
  \<open>draw.text\<close> call in \<open>draw_file_label\<close>, the second in \<open>draw_rank_label\<close>.\<close>

definition render_square_location :: "FenToImage \<Rightarrow> int \<Rightarrow> int \<Rightarrow> error + FenToImage" where
  "render_square_location self x y =
     (case (if y = 7 then draw_file_label self x y else Inr self) of
        Inl e \<Rightarrow> Inl e
      | Inr self1 \<Rightarrow> (if x = 7 then draw_rank_label self1 x y else Inr self1))"

definition render_piece ::
  "FenToImage \<Rightarrow> world \<Rightarrow> int \<Rightarrow> int \<Rightarrow> (error + unit) \<times> FenToImage \<times> world" where
  "render_piece self w x y =
     (let rectx = x * square_size self;
          recty = y * square_size self in
      case get_square_at x y of
        Inl e \<Rightarrow> (Inl e, self, w)
      | Inr sq \<Rightarrow>
          (case board self sq of
             None \<Rightarrow> (Inr (), self, w)
           | Some piece \<Rightarrow>
               (case PieceImage_render (piece_drawer self) w piece of
                  (Inl e, drawer, w1) \<Rightarrow> (Inl e, self\<lparr>piece_drawer := drawer\<rparr>, w1)
                | (Inr piece_image, drawer, w1) \<Rightarrow>
                    (let self1 = self\<lparr>piece_drawer := drawer\<rparr> in
                     case image self1 of
                       None \<Rightarrow> (Inl AttributeError, self1, w1)
                     | Some im \<Rightarrow>
                         (Inr (), self1\<lparr>image := Some (draw
                                    (Paste piece_image (rectx, recty)) im)\<rparr>, w1)))))"

text \<open>The body of the two nested loops of \<open>render\<close>, then the inner loop over \<open>y\<close> and
  the outer loop over \<open>x\<close>; an exception ends both.\<close>

definition render_cell ::
  "FenToImage \<Rightarrow> world \<Rightarrow> Square list \<Rightarrow> int \<Rightarrow> int \<Rightarrow> (error + unit) \<times> FenToImage \<times> world" where
  "render_cell self w highlighted_squares x y =
     (case render_square_background self x y highlighted_squares of
        Inl e \<Rightarrow> (Inl e, self, w)
      | Inr self1 \<Rightarrow>
          (case (if enabled (text_config self1) then render_square_location self1 x y
                 else Inr self1) of
             Inl e \<Rightarrow> (Inl e, self1, w)
           | Inr self2 \<Rightarrow> render_piece self2 w x y))"

fun render_ys ::
  "FenToImage \<Rightarrow> world \<Rightarrow> Square list \<Rightarrow> int \<Rightarrow> int list \<Rightarrow> (error + unit) \<times> FenToImage \<times> world" where
  "render_ys self w hs x [] = (Inr (), self, w)"
| "render_ys self w hs x (y # ys) =
     (case render_cell self w hs x y of
        (Inl e, self1, w1) \<Rightarrow> (Inl e, self1, w1)
      | (Inr u, self1, w1) \<Rightarrow> render_ys self1 w1 hs x ys)"

fun render_xs ::
  "FenToImage \<Rightarrow> world \<Rightarrow> Square list \<Rightarrow> int list \<Rightarrow> (error + unit) \<times> FenToImage \<times> world" where
  "render_xs self w hs [] = (Inr (), self, w)"
| "render_xs self w hs (x # xs) =
     (case render_ys self w hs x [0..7] of
        (Inl e, self1, w1) \<Rightarrow> (Inl e, self1, w1)
      | (Inr u, self1, w1) \<Rightarrow> render_xs self1 w1 hs xs)"

definition FenToImage_render ::
  "FenToImage \<Rightarrow> world \<Rightarrow> Square list \<Rightarrow> (error + Canvas) \<times> FenToImage \<times> world" where
  "FenToImage_render self w highlighted_squares =
     (case init_image self w of
        Inl e \<Rightarrow> (Inl e, self, w)
      | Inr self1 \<Rightarrow>
          (case render_xs self1 w highlighted_squares [0..7] of
             (Inl e, self2, w2) \<Rightarrow> (Inl e, self2, w2)
           | (Inr u, self2, w2) \<Rightarrow>
               (case image self2 of
                  None \<Rightarrow> (Inl AttributeError, self2, w2)
                | Some im \<Rightarrow> (Inr im, self2, w2))))"


section \<open>What the drawing calls do to a pixel\<close>

text \<open>A new RGB image is black. \<open>ImageDraw.rectangle\<close> fills its box, both corners
  included. \<open>ImageDraw.text\<close> and \<open>Image.paste\<close> with a mask blend their colour into
  the pixel that is there, by the coverage of the rendered text and by the alpha of the
  glyph. How a font covers pixels and how two colours blend are left open in \<open>pil\<close>.
  Nothing is drawn outside the image, and \<open>getpixel\<close> raises there.\<close>

record pil =
  blend :: "rgb \<Rightarrow> rgb \<Rightarrow> int \<Rightarrow> rgb"
  text_alpha :: "Font \<Rightarrow> string \<Rightarrow> string \<Rightarrow> int \<times> int \<Rightarrow> int"

fun apply_op :: "pil \<Rightarrow> int \<times> int \<Rightarrow> rgb \<Rightarrow> draw_op \<Rightarrow> rgb" where
  "apply_op P (px, py) old (Rectangle (x0, y0, x1, y1) fill) =
     (if x0 \<le> px \<and> px \<le> x1 \<and> y0 \<le> py \<and> py \<le> y1 then fill else old)"
| "apply_op P (px, py) old (Text (tx, ty) s fill anchor fnt) =
     blend P old fill (text_alpha P fnt anchor s (px - tx, py - ty))"
| "apply_op P (px, py) old (Paste im (ox, oy)) =
     (if 0 \<le> px - ox \<and> px - ox < img_width im \<and> 0 \<le> py - oy \<and> py - oy < img_height im
      then blend P old (fst (img_px im (px - ox) (py - oy)))
                       (snd (img_px im (px - ox) (py - oy)))
      else old)"

definition getpixel :: "pil \<Rightarrow> Canvas \<Rightarrow> int \<times> int \<Rightarrow> error + rgb" where
  "getpixel P im p =
     (if 0 \<le> fst p \<and> fst p < fst (canvas_size im) \<and> 0 \<le> snd p \<and> snd p < snd (canvas_size im)
      then Inr (foldl (apply_op P p) (0, 0, 0) (ops im))
      else Inl IndexError)"


section \<open>Sample inputs and helpers for stating the properties\<close>

definition demo_glyph :: Image where
  "demo_glyph = \<lparr>img_width = 1, img_height = 1, img_px = (\<lambda>i j. ((0, 0, 0), 255))\<rparr>"

definition demo_drawer :: PieceImage where
  "demo_drawer = \<lparr>size' = 128, config = default_Config, cache = Map.empty\<rparr>"

definition demo_world :: world where
  "demo_world =
     \<lparr>dirs = (\<lambda>p. if p = PIECE_LOCATION then Some [(''cburnett'', True), (''LICENSE'', False)]
                  else None),
      files = (\<lambda>p. if p = FONT_LOCATION then Some [2] else None),
      png_open = (\<lambda>b. if b = [0] then Some demo_glyph else None),
      popen = (\<lambda>args. Exited 0 (Some [0])),
      can_allocate = (\<lambda>sz. fst sz \<le> 32768 \<and> snd sz \<le> 32768),
      events = []\<rparr>"

definition demo_world_disk :: world where
  "demo_world_disk =
     demo_world\<lparr>files := (files demo_world)(cache_filepath demo_drawer (Piece KING True) \<mapsto> [0])\<rparr>"

definition demo_world_broken :: world where
  "demo_world_broken = demo_world\<lparr>popen := (\<lambda>args. Exited 1 (Some []))\<rparr>"

definition demo_world_garbled :: world where
  "demo_world_garbled = demo_world\<lparr>popen := (\<lambda>args. Exited 0 (Some [7]))\<rparr>"

text \<open>\<open>RuntimeError\<close> is what the source raises itself.\<close>

definition is_RuntimeError :: "error \<Rightarrow> bool" where
  "is_RuntimeError e = (case e of RuntimeError m \<Rightarrow> True | _ \<Rightarrow> False)"


text \<open>Counting the processes started, and calling \<open>PieceImage.render\<close> \<open>n\<close> times in a row on
  one object.\<close>

definition is_spawn :: "event \<Rightarrow> bool" where
  "is_spawn e = (case e of Spawn args \<Rightarrow> True | _ \<Rightarrow> False)"

definition spawns :: "world \<Rightarrow> nat" where
  "spawns w = length (filter is_spawn (events w))"

fun render_times :: "nat \<Rightarrow> PieceImage \<Rightarrow> world \<Rightarrow> Piece \<Rightarrow> (error + Image) list \<times> PieceImage \<times> world" where
  "render_times 0 self w p = ([], self, w)"
| "render_times (Suc n) self w p =
     (case PieceImage_render self w p of
        (r, self1, w1) \<Rightarrow>
          (case render_times n self1 w1 p of
             (rs, self2, w2) \<Rightarrow> (r # rs, self2, w2)))"

text \<open>Both caches are cold for a piece: no entry in memory, no file on disk.\<close>

definition cold :: "PieceImage \<Rightarrow> world \<Rightarrow> Piece \<Rightarrow> bool" where
  "cold self w piece = (cache self (symbol piece) = None \<and> files w (cache_filepath self piece) = None)"

text \<open>A renderer on the position \<open>k7/8/8/8/8/8/8/K7\<close> with the default configuration, its
  canvas allocated and still empty.\<close>

definition demo_board :: "Square \<Rightarrow> Piece option" where
  "demo_board sq = (if sq = A8 then Some (Piece KING False)
                    else if sq = A1 then Some (Piece KING True) else None)"

definition demo_canvas :: Canvas where
  "demo_canvas = \<lparr>canvas_size = (1024, 1024), ops = []\<rparr>"

definition demo_renderer :: FenToImage where
  "demo_renderer =
     \<lparr>board = demo_board, square_size = 128, config = default_Config,
      text_config = default_TextConfig, square_config = default_SquareConfig,
      piece_drawer = demo_drawer, font = (FONT_LOCATION, 24), image = Some demo_canvas\<rparr>"

text \<open>The errors that \<open>PieceImage.render\<close> can raise.\<close>

definition raised_by_drawer :: "error \<Rightarrow> bool" where
  "raised_by_drawer e =
     (case e of RuntimeError m \<Rightarrow> True | FileNotFoundError \<Rightarrow> True
      | UnidentifiedImageError \<Rightarrow> True | _ \<Rightarrow> False)"

text \<open>The two loops of \<open>render\<close> as one pass over the list of cells, column by column.\<close>

fun render_cells ::
  "FenToImage \<Rightarrow> world \<Rightarrow> Square list \<Rightarrow> (int \<times> int) list \<Rightarrow> (error + unit) \<times> FenToImage \<times> world" where
  "render_cells self w hs [] = (Inr (), self, w)"
| "render_cells self w hs (c # cs) =
     (case render_cell self w hs (fst c) (snd c) of
        (Inl e, self1, w1) \<Rightarrow> (Inl e, self1, w1)
      | (Inr u, self1, w1) \<Rightarrow> render_cells self1 w1 hs cs)"

definition board_cells :: "int list \<Rightarrow> (int \<times> int) list" where
  "board_cells xs = concat (map (\<lambda>x. map (Pair x) [0..7]) xs)"

text \<open>The canvas is allocated and has the given size.\<close>

definition canvas_ready :: "int \<times> int \<Rightarrow> FenToImage \<Rightarrow> bool" where
  "canvas_ready sz self = (case image self of None \<Rightarrow> False | Some im \<Rightarrow> canvas_size im = sz)"

text \<open>What one cell draws before its piece: the rectangle and, when text is enabled,
  the labels. \<open>add_ops\<close> appends drawing calls to the canvas of a renderer.\<close>

definition cell_fill :: "FenToImage \<Rightarrow> Square list \<Rightarrow> int \<Rightarrow> int \<Rightarrow> rgb" where
  "cell_fill self hs x y =
     (if x + (7 - y) * 8 \<in> set hs then SquareConfig_highlight_color (square_config self)
      else SquareConfig_color (square_config self)) ! nat ((x + y) mod 2)"

definition cell_box :: "int \<Rightarrow> int \<Rightarrow> int \<Rightarrow> int \<times> int \<times> int \<times> int" where
  "cell_box s x y = (x * s, y * s, x * s + s, y * s + s)"

definition cell_labels :: "FenToImage \<Rightarrow> int \<Rightarrow> int \<Rightarrow> draw_op list" where
  "cell_labels self x y =
     (if y = 7
      then [Text (x * square_size self + padding (text_config self),
                  y * square_size self + square_size self - padding (text_config self))
              [''abcdefgh'' ! nat x]
              (TextConfig_color (text_config self) ! nat (x mod 2)) ''ls'' (font self)]
      else [])
     @ (if x = 7
        then [Text (x * square_size self + square_size self - padding (text_config self),
                    y * square_size self + padding (text_config self))
                [''87654321'' ! nat y]
                (TextConfig_color (text_config self) ! nat (y mod 2)) ''rt'' (font self)]
        else [])"

definition cell_ground :: "FenToImage \<Rightarrow> Square list \<Rightarrow> int \<Rightarrow> int \<Rightarrow> draw_op list" where
  "cell_ground self hs x y =
     Rectangle (cell_box (square_size self) x y) (cell_fill self hs x y)
     # (if enabled (text_config self) then cell_labels self x y else [])"

definition add_ops :: "draw_op list \<Rightarrow> FenToImage \<Rightarrow> FenToImage" where
  "add_ops new self = self\<lparr>image := map_option (\<lambda>im. im\<lparr>ops := ops im @ new\<rparr>) (image self)\<rparr>"

definition in_board :: "int \<times> int \<Rightarrow> bool" where
  "in_board c = (0 \<le> fst c \<and> fst c < 8 \<and> 0 \<le> snd c \<and> snd c < 8)"

text \<open>A renderer with other highlight colours, and a change of the renderer inside the
  result of a step.\<close>

definition recolor :: "rgb \<Rightarrow> rgb \<Rightarrow> FenToImage \<Rightarrow> FenToImage" where
  "recolor a b self =
     self\<lparr>square_config := (square_config self)\<lparr>light_highlight_color := a,
                                                  dark_highlight_color := b\<rparr>\<rparr>"

definition on_state :: "(FenToImage \<Rightarrow> FenToImage) \<Rightarrow> 'a \<times> FenToImage \<times> world \<Rightarrow> 'a \<times> FenToImage \<times> world" where
  "on_state f res = (fst res, f (fst (snd res)), snd (snd res))"

text \<open>The cell that holds a pixel, the pixels of the canvas, and the pixels of the cell of
  a square: the region of \<open>square_size\<close> by \<open>square_size\<close> pixels at the offset of the
  square.\<close>

definition cell_of :: "int \<Rightarrow> int \<times> int \<Rightarrow> int \<times> int" where
  "cell_of s p = (fst p div s, snd p div s)"

definition in_canvas :: "int \<Rightarrow> int \<times> int \<Rightarrow> bool" where
  "in_canvas s p = (0 \<le> fst p \<and> fst p < 8 * s \<and> 0 \<le> snd p \<and> snd p < 8 * s)"

definition in_cell :: "int \<Rightarrow> Square \<Rightarrow> int \<times> int \<Rightarrow> bool" where
  "in_cell s sq p =
     (square_file sq * s \<le> fst p \<and> fst p < square_file sq * s + s
      \<and> (7 - square_rank sq) * s \<le> snd p \<and> snd p < (7 - square_rank sq) * s + s)"

text \<open>A sample of the open parts of the pixel model, and the sample renderer on an empty
  board.\<close>

definition demo_pil :: pil where
  "demo_pil = \<lparr>blend = (\<lambda>old new a. if a = 0 then old else new),
                text_alpha = (\<lambda>fnt anchor s d. 0)\<rparr>"

definition demo_empty :: FenToImage where
  "demo_empty = demo_renderer\<lparr>board := (\<lambda>sq. None)\<rparr>"

definition demo_huge :: FenToImage where
  "demo_huge = demo_empty\<lparr>square_size := 2 ^ 28\<rparr>"

text \<open>The three cells to the right of a cell and below it; in the order of the loop they
  all come later.\<close>

definition neighbours :: "int \<times> int \<Rightarrow> (int \<times> int) list" where
  "neighbours c = [(fst c, snd c + 1), (fst c + 1, snd c), (fst c + 1, snd c + 1)]"

fun later :: "(int \<times> int) list \<Rightarrow> bool" where
  "later [] = True"
| "later (c # cs) = (list_all (\<lambda>d. in_board d \<longrightarrow> d \<in> set cs) (neighbours c) \<and> later cs)"

text \<open>Two renderers in step, one rendering without highlight and one with: they differ
  in their canvases only, and at the pixel \<open>p\<close> the canvases agree unless the cell of
  \<open>p\<close> is still to be drawn.\<close>

definition twin ::
  "pil \<Rightarrow> int \<Rightarrow> int \<times> int \<Rightarrow> (int \<times> int) list \<Rightarrow> FenToImage \<Rightarrow> FenToImage \<Rightarrow> bool" where
  "twin P s p cs a b =
     (case (image a, image b) of
        (Some ia, Some ib) \<Rightarrow>
          b = a\<lparr>image := Some ib\<rparr> \<and> square_size a = s
          \<and> canvas_size ia = (8 * s, 8 * s) \<and> canvas_size ib = (8 * s, 8 * s)
          \<and> (in_canvas s p \<longrightarrow>
                foldl (apply_op P p) (0, 0, 0) (ops ia) = foldl (apply_op P p) (0, 0, 0) (ops ib)
                \<or> cell_of s p \<in> set cs)
      | _ \<Rightarrow> False)"


section \<open>Piece symbols and file names\<close>

lemma upper_letters:
  "upper ''p'' = ''P''" "upper ''n'' = ''N''" "upper ''b'' = ''B''"
  "upper ''r'' = ''R''" "upper ''q'' = ''Q''" "upper ''k'' = ''K''"
  by code_simp+

lemma symbol_cases:
  "symbol (Piece k c) = (case (k, c) of
     (PAWN, True) \<Rightarrow> ''P'' | (KNIGHT, True) \<Rightarrow> ''N'' | (BISHOP, True) \<Rightarrow> ''B''
   | (ROOK, True) \<Rightarrow> ''R'' | (QUEEN, True) \<Rightarrow> ''Q'' | (KING, True) \<Rightarrow> ''K''
   | (PAWN, False) \<Rightarrow> ''p'' | (KNIGHT, False) \<Rightarrow> ''n'' | (BISHOP, False) \<Rightarrow> ''b''
   | (ROOK, False) \<Rightarrow> ''r'' | (QUEEN, False) \<Rightarrow> ''q'' | (KING, False) \<Rightarrow> ''k'')"
  by (cases k; cases c; simp add: symbol_def upper_letters)

lemma symbol_inj: "symbol p = symbol q \<Longrightarrow> p = q"
  by (cases p; cases q) (auto simp: symbol_cases split: PieceType.splits bool.splits)

lemma symbol_length: "length (symbol p) = 1"
  by (cases p) (auto simp: symbol_cases split: PieceType.splits bool.splits)

lemma filename_length: "length (piece_to_filename p ext) = 2 + length ext"
  by (simp add: piece_to_filename_def Let_def upper_def symbol_length)

lemma log_event_simps [simp]:
  "files (log_event e w) = files w" "dirs (log_event e w) = dirs w"
  "png_open (log_event e w) = png_open w" "popen (log_event e w) = popen w"
  "can_allocate (log_event e w) = can_allocate w"
  "events (log_event e w) = events w @ [e]"
  by (simp_all add: log_event_def)

lemma get_piece_from_cache_hit:
  "cache self (symbol piece) = Some img \<Longrightarrow>
   get_piece_from_cache self w piece = (Inr (Some img), w)"
  by (simp add: get_piece_from_cache_def)

lemma get_piece_from_cache_disk:
  "cache self (symbol piece) = None \<Longrightarrow> files w (cache_filepath self piece) = Some content \<Longrightarrow>
   get_piece_from_cache self w piece =
     (case png_open w content of
        None \<Rightarrow> Inl UnidentifiedImageError
      | Some img \<Rightarrow> Inr (Some img),
      log_event (OpenFile (cache_filepath self piece))
        (log_event (Exists (cache_filepath self piece)) w))"
  by (simp add: get_piece_from_cache_def Let_def split: option.splits)

lemma get_piece_from_cache_miss:
  "cache self (symbol piece) = None \<Longrightarrow> files w (cache_filepath self piece) = None \<Longrightarrow>
   get_piece_from_cache self w piece = (Inr None, log_event (Exists (cache_filepath self piece)) w)"
  by (simp add: get_piece_from_cache_def Let_def)

lemma render_hit:
  "cache self (symbol piece) = Some img \<Longrightarrow> PieceImage_render self w piece = (Inr img, self, w)"
  by (simp add: PieceImage_render_def get_piece_from_cache_hit)

lemma render_disk:
  "cache self (symbol piece) = None \<Longrightarrow> files w (cache_filepath self piece) = Some content \<Longrightarrow>
   png_open w content = Some img \<Longrightarrow>
   PieceImage_render self w piece =
     (Inr img, self, log_event (OpenFile (cache_filepath self piece))
                      (log_event (Exists (cache_filepath self piece)) w))"
  by (simp add: PieceImage_render_def get_piece_from_cache_disk)

lemma render_disk_bad:
  "cache self (symbol piece) = None \<Longrightarrow> files w (cache_filepath self piece) = Some content \<Longrightarrow>
   png_open w content = None \<Longrightarrow>
   PieceImage_render self w piece =
     (Inl UnidentifiedImageError, self, log_event (OpenFile (cache_filepath self piece))
                      (log_event (Exists (cache_filepath self piece)) w))"
  by (simp add: PieceImage_render_def get_piece_from_cache_disk)

lemma render_miss:
  "cache self (symbol piece) = None \<Longrightarrow> files w (cache_filepath self piece) = None \<Longrightarrow>
   PieceImage_render self w piece =
     (let w2 = log_event (Spawn (inkscape_args self piece))
                 (log_event (Exists (cache_filepath self piece)) w) in
      case popen w (inkscape_args self piece) of
        SpawnFailed \<Rightarrow> (Inl FileNotFoundError, self, w2)
      | Exited rcode out \<Rightarrow>
          if rcode \<noteq> 0 then (Inl (RuntimeError ''inkscape app error''), self, w2)
          else (case out of
                  None \<Rightarrow> (Inl (RuntimeError ''inkscape file error''), self, w2)
                | Some content \<Rightarrow>
                    (case png_open w content of
                       None \<Rightarrow> (Inl UnidentifiedImageError, self, w2)
                     | Some img \<Rightarrow>
                         (Inr img, self\<lparr>cache := (cache self)(symbol piece \<mapsto> img)\<rparr>, w2))))"
  by (simp add: PieceImage_render_def get_piece_from_cache_miss Let_def
           split: proc.splits option.splits)

lemma render_files: "files (snd (snd (PieceImage_render self w piece))) = files w"
proof (cases "cache self (symbol piece)")
  case (Some img)
  then show ?thesis by (simp add: render_hit)
next
  case None
  show ?thesis
  proof (cases "files w (cache_filepath self piece)")
    case (Some content)
    with None show ?thesis
      by (cases "png_open w content") (simp_all add: render_disk render_disk_bad)
  next
    case nofile: None
    with None show ?thesis
      by (simp add: render_miss Let_def split: proc.splits option.splits)
  qed
qed

section \<open>The glyph cache\<close>

text \<open>Claim C2. \<open>PieceImage.render\<close> follows a two-tier cache policy. When the piece's
  symbol is in the memory cache, the cached image is returned and neither the object nor
  the world changes: no file is looked at and no process is started. When it is not, and
  a PNG file exists at \<open>cache/<theme>/<size>/<token>.png\<close>, the file is opened and its
  image returned, and the memory cache stays as it was. When neither holds and Inkscape
  exits with 0 and a decodable output, the new image is returned and stored in the memory
  cache under the piece's symbol. In every case the files of the world are unchanged:
  nothing is written to the disk cache.\<close>

theorem render_cache_policy:
  "(cache self (symbol piece) = Some img \<longrightarrow>
      PieceImage_render self w piece = (Inr img, self, w))
   \<and> (cache self (symbol piece) = None
        \<and> files w (cache_filepath self piece) = Some content
        \<and> png_open w content = Some img \<longrightarrow>
      PieceImage_render self w piece =
        (Inr img, self,
         w\<lparr>events := events w @ [Exists (cache_filepath self piece),
                                  OpenFile (cache_filepath self piece)]\<rparr>))
   \<and> (cache self (symbol piece) = None
        \<and> files w (cache_filepath self piece) = None
        \<and> popen w (inkscape_args self piece) = Exited 0 (Some content)
        \<and> png_open w content = Some img \<longrightarrow>
      PieceImage_render self w piece =
        (Inr img, self\<lparr>cache := (cache self)(symbol piece \<mapsto> img)\<rparr>,
         w\<lparr>events := events w @ [Exists (cache_filepath self piece),
                                  Spawn (inkscape_args self piece)]\<rparr>))
   \<and> files (snd (snd (PieceImage_render self w piece))) = files w
   \<and> cache_filepath self piece =
       CACHE_LOCATION @ [piece_theme (PieceImage.config self), str (size' self),
                         piece_to_filename piece ''.png'']"
  by (simp add: render_hit render_disk render_miss render_files log_event_def cache_filepath_def)

theorem render_cache_policy_witness:
  "PieceImage_render (demo_drawer\<lparr>cache := [symbol (Piece KING True) \<mapsto> demo_glyph]\<rparr>)
       demo_world (Piece KING True)
     = (Inr demo_glyph, demo_drawer\<lparr>cache := [symbol (Piece KING True) \<mapsto> demo_glyph]\<rparr>,
        demo_world)
   \<and> PieceImage_render demo_drawer demo_world_disk (Piece KING True)
     = (Inr demo_glyph, demo_drawer,
        demo_world_disk\<lparr>events := [Exists (cache_filepath demo_drawer (Piece KING True)),
                                    OpenFile (cache_filepath demo_drawer (Piece KING True))]\<rparr>)
   \<and> PieceImage_render demo_drawer demo_world (Piece KING True)
     = (Inr demo_glyph, demo_drawer\<lparr>cache := [symbol (Piece KING True) \<mapsto> demo_glyph]\<rparr>,
        demo_world\<lparr>events := [Exists (cache_filepath demo_drawer (Piece KING True)),
                               Spawn (inkscape_args demo_drawer (Piece KING True))]\<rparr>)"
proof -
  have mem: "cache (demo_drawer\<lparr>cache := [symbol (Piece KING True) \<mapsto> demo_glyph]\<rparr>)
               (symbol (Piece KING True)) = Some demo_glyph"
    by simp
  have cold: "cache demo_drawer (symbol (Piece KING True)) = None"
    by (simp add: demo_drawer_def)
  have disk: "files demo_world_disk (cache_filepath demo_drawer (Piece KING True)) = Some [0]"
    "png_open demo_world_disk [0] = Some demo_glyph" "events demo_world_disk = []"
    by (simp_all add: demo_world_disk_def demo_world_def)
  have nodisk: "files demo_world (cache_filepath demo_drawer (Piece KING True)) = None"
    by (simp add: demo_world_def cache_filepath_def CACHE_LOCATION_def FONT_LOCATION_def)
  have ras: "popen demo_world (inkscape_args demo_drawer (Piece KING True)) = Exited 0 (Some [0])"
    "png_open demo_world [0] = Some demo_glyph" "events demo_world = []"
    by (simp_all add: demo_world_def)
  have a: "PieceImage_render (demo_drawer\<lparr>cache := [symbol (Piece KING True) \<mapsto> demo_glyph]\<rparr>)
       demo_world (Piece KING True)
     = (Inr demo_glyph, demo_drawer\<lparr>cache := [symbol (Piece KING True) \<mapsto> demo_glyph]\<rparr>,
        demo_world)"
    using render_cache_policy [where self = "demo_drawer\<lparr>cache := [symbol (Piece KING True) \<mapsto> demo_glyph]\<rparr>"
             and piece = "Piece KING True" and img = demo_glyph and w = demo_world, THEN conjunct1] mem
    by blast
  have b: "PieceImage_render demo_drawer demo_world_disk (Piece KING True)
     = (Inr demo_glyph, demo_drawer,
        demo_world_disk\<lparr>events := events demo_world_disk @
             [Exists (cache_filepath demo_drawer (Piece KING True)),
              OpenFile (cache_filepath demo_drawer (Piece KING True))]\<rparr>)"
    using render_cache_policy [where self = demo_drawer and piece = "Piece KING True"
             and w = demo_world_disk and content = "[0]" and img = demo_glyph,
             THEN conjunct2, THEN conjunct1] cold disk
    by blast
  have c: "PieceImage_render demo_drawer demo_world (Piece KING True)
     = (Inr demo_glyph, demo_drawer\<lparr>cache := (cache demo_drawer)(symbol (Piece KING True) \<mapsto> demo_glyph)\<rparr>,
        demo_world\<lparr>events := events demo_world @
             [Exists (cache_filepath demo_drawer (Piece KING True)),
              Spawn (inkscape_args demo_drawer (Piece KING True))]\<rparr>)"
    using render_cache_policy [where self = demo_drawer and piece = "Piece KING True"
             and w = demo_world and content = "[0]" and img = demo_glyph,
             THEN conjunct2, THEN conjunct2, THEN conjunct1] cold nodisk ras
    by blast
  have e: "cache demo_drawer = Map.empty" by (simp add: demo_drawer_def)
  show ?thesis
    using a b c by (simp add: disk ras e)
qed

lemma spawns_log_event [simp]:
  "spawns (log_event e w) = spawns w + (if is_spawn e then 1 else 0)"
  by (simp add: spawns_def)

lemma is_spawn_simps [simp]:
  "is_spawn (Spawn args)" "\<not> is_spawn (Exists p)" "\<not> is_spawn (OpenFile p)" "\<not> is_spawn (ListDir p)"
  by (simp_all add: is_spawn_def)

lemma render_spawns:
  "spawns (snd (snd (PieceImage_render self w piece))) =
     spawns w + (if cold self w piece then 1 else 0)"
proof (cases "cache self (symbol piece)")
  case (Some img)
  then show ?thesis by (simp add: render_hit cold_def)
next
  case None
  show ?thesis
  proof (cases "files w (cache_filepath self piece)")
    case (Some content)
    with None show ?thesis
      by (cases "png_open w content") (simp_all add: render_disk render_disk_bad cold_def)
  next
    case nofile: None
    with None show ?thesis
      by (simp add: render_miss Let_def cold_def split: proc.splits option.splits)
  qed
qed

lemma render_stable:
  assumes first: "PieceImage_render self w piece = (Inr img, self1, w1)"
    and env: "files w' = files w" "png_open w' = png_open w"
  shows "\<exists>w''. PieceImage_render self1 w' piece = (Inr img, self1, w'')
           \<and> \<not> cold self1 w' piece"
proof (cases "cache self (symbol piece)")
  case (Some cached)
  with first have "cached = img" "self1 = self"
    by (simp_all add: render_hit)
  with Some show ?thesis
    by (simp add: render_hit cold_def)
next
  case None
  show ?thesis
  proof (cases "files w (cache_filepath self piece)")
    case (Some content)
    with None first have "png_open w content = Some img" "self1 = self"
      by (cases "png_open w content"; simp add: render_disk render_disk_bad)+
    with None Some env show ?thesis
      by (simp add: render_disk cold_def)
  next
    case nofile: None
    with None first have "self1 = self\<lparr>cache := (cache self)(symbol piece \<mapsto> img)\<rparr>"
      by (auto simp: render_miss Let_def split: proc.splits option.splits if_splits)
    then show ?thesis
      by (simp add: render_hit cold_def)
  qed
qed

lemma render_world:
  "\<exists>es. snd (snd (PieceImage_render self w piece)) = w\<lparr>events := events w @ es\<rparr>"
proof (cases "cache self (symbol piece)")
  case (Some img)
  then have "snd (snd (PieceImage_render self w piece)) = w\<lparr>events := events w @ []\<rparr>"
    by (simp add: render_hit)
  then show ?thesis by blast
next
  case None
  show ?thesis
  proof (cases "files w (cache_filepath self piece)")
    case (Some content)
    with None have "snd (snd (PieceImage_render self w piece)) =
        w\<lparr>events := events w @ [Exists (cache_filepath self piece),
                                 OpenFile (cache_filepath self piece)]\<rparr>"
      by (cases "png_open w content") (simp_all add: render_disk render_disk_bad log_event_def)
    then show ?thesis by blast
  next
    case nofile: None
    with None have "snd (snd (PieceImage_render self w piece)) =
        w\<lparr>events := events w @ [Exists (cache_filepath self piece),
                                 Spawn (inkscape_args self piece)]\<rparr>"
      by (simp add: render_miss Let_def log_event_def split: proc.splits option.splits)
    then show ?thesis by blast
  qed
qed

lemma render_env:
  "files (snd (snd (PieceImage_render self w piece))) = files w"
  "png_open (snd (snd (PieceImage_render self w piece))) = png_open w"
  "popen (snd (snd (PieceImage_render self w piece))) = popen w"
  "dirs (snd (snd (PieceImage_render self w piece))) = dirs w"
  using render_world [of self w piece] by auto

lemma render_times_stable:
  assumes first: "PieceImage_render self w piece = (Inr img, self1, w1)"
  shows "files w' = files w \<Longrightarrow> png_open w' = png_open w \<Longrightarrow>
         fst (render_times n self1 w' piece) = replicate n (Inr img)
         \<and> spawns (snd (snd (render_times n self1 w' piece))) = spawns w'"
proof (induction n arbitrary: w')
  case 0
  show ?case by simp
next
  case (Suc n)
  from render_stable [OF first Suc.prems]
  obtain w'' where call: "PieceImage_render self1 w' piece = (Inr img, self1, w'')"
    and warm: "\<not> cold self1 w' piece"
    by blast
  have w'': "w'' = snd (snd (PieceImage_render self1 w' piece))"
    by (simp add: call)
  have env: "files w'' = files w" "png_open w'' = png_open w"
    by (simp_all add: w'' render_env Suc.prems)
  have sp: "spawns w'' = spawns w'"
    using render_spawns [of self1 w' piece] warm by (simp add: call)
  from Suc.IH [OF env] show ?case
    by (auto simp: call sp split: prod.splits)
qed

text \<open>Claim C5. For every piece, when a call of \<open>PieceImage.render\<close> returns an image,
  \<open>n\<close> calls in a row on that object, starting from the same state, all return that
  same image, and together they start at most one Inkscape process: exactly one when
  there is a call at all and both caches were cold before the first call, none otherwise.
  (A call that raises is the subject of C6.)\<close>

theorem render_idempotent:
  assumes "PieceImage_render self w piece = (Inr img, self1, w1)"
  shows "fst (render_times n self w piece) = replicate n (Inr img)
     \<and> spawns (snd (snd (render_times n self w piece))) =
         spawns w + (if 0 < n \<and> cache self (symbol piece) = None
                        \<and> files w (cache_filepath self piece) = None then 1 else 0)"
proof (cases n)
  case 0
  then show ?thesis by simp
next
  case (Suc m)
  have w1: "w1 = snd (snd (PieceImage_render self w piece))"
    by (simp add: assms)
  have env: "files w1 = files w" "png_open w1 = png_open w"
    by (simp_all add: w1 render_env)
  have sp: "spawns w1 = spawns w + (if cold self w piece then 1 else 0)"
    using render_spawns [of self w piece] by (simp add: assms)
  from render_times_stable [OF assms env, of m] show ?thesis
    by (auto simp: Suc assms sp cold_def split: prod.splits)
qed

theorem render_idempotent_witness:
  "PieceImage_render demo_drawer demo_world (Piece ROOK True) =
     (Inr demo_glyph, demo_drawer\<lparr>cache := [symbol (Piece ROOK True) \<mapsto> demo_glyph]\<rparr>,
      demo_world\<lparr>events := [Exists (cache_filepath demo_drawer (Piece ROOK True)),
                             Spawn (inkscape_args demo_drawer (Piece ROOK True))]\<rparr>)
   \<and> fst (render_times 3 demo_drawer demo_world (Piece ROOK True)) =
       [Inr demo_glyph, Inr demo_glyph, Inr demo_glyph]
   \<and> spawns (snd (snd (render_times 3 demo_drawer demo_world (Piece ROOK True)))) = 1"
proof -
  have cold: "cache demo_drawer (symbol (Piece ROOK True)) = None"
    "cache demo_drawer = Map.empty"
    by (simp_all add: demo_drawer_def)
  have nodisk: "files demo_world (cache_filepath demo_drawer (Piece ROOK True)) = None"
    by (simp add: demo_world_def cache_filepath_def CACHE_LOCATION_def FONT_LOCATION_def)
  have ras: "popen demo_world (inkscape_args demo_drawer (Piece ROOK True)) = Exited 0 (Some [0])"
    "png_open demo_world [0] = Some demo_glyph" "events demo_world = []"
    by (simp_all add: demo_world_def)
  have first: "PieceImage_render demo_drawer demo_world (Piece ROOK True) =
     (Inr demo_glyph, demo_drawer\<lparr>cache := [symbol (Piece ROOK True) \<mapsto> demo_glyph]\<rparr>,
      demo_world\<lparr>events := [Exists (cache_filepath demo_drawer (Piece ROOK True)),
                             Spawn (inkscape_args demo_drawer (Piece ROOK True))]\<rparr>)"
    by (simp add: render_miss cold nodisk ras Let_def log_event_def)
  have sp0: "spawns demo_world = 0"
    by (simp add: spawns_def ras)
  show ?thesis
    using render_idempotent [OF first, of 3] first
    by (simp add: cold nodisk sp0 numeral_3_eq_3)
qed

text \<open>Claim C6 says that \<open>render\<close> raises its own error whenever Inkscape exits with 0
  and its output cannot be read. Here Inkscape exits with 0 and writes bytes that are no
  PNG image: the error raised is \<open>UnidentifiedImageError\<close>, from \<open>Image.open\<close>, and not the
  \<open>RuntimeError\<close> of the source.\<close>

theorem rasterizer_output_counterexample:
  "PieceImage_render demo_drawer demo_world_garbled (Piece QUEEN False) =
     (Inl UnidentifiedImageError, demo_drawer,
      demo_world_garbled\<lparr>events := [Exists (cache_filepath demo_drawer (Piece QUEEN False)),
                                      Spawn (inkscape_args demo_drawer (Piece QUEEN False))]\<rparr>)
   \<and> \<not> is_RuntimeError UnidentifiedImageError"
proof -
  have cold: "cache demo_drawer (symbol (Piece QUEEN False)) = None"
    by (simp add: demo_drawer_def)
  have nodisk: "files demo_world_garbled (cache_filepath demo_drawer (Piece QUEEN False)) = None"
    by (simp add: demo_world_garbled_def demo_world_def cache_filepath_def CACHE_LOCATION_def
          FONT_LOCATION_def)
  have out: "popen demo_world_garbled (inkscape_args demo_drawer (Piece QUEEN False)) = Exited 0 (Some [7])"
    "png_open demo_world_garbled [7] = None" "events demo_world_garbled = []"
    by (simp_all add: demo_world_garbled_def demo_world_def)
  show ?thesis
    by (simp add: render_miss [OF cold nodisk] out Let_def log_event_def is_RuntimeError_def)
qed

text \<open>Claim C6, amended. On a full cache miss, when Inkscape exits with a non-zero return
  code, \<open>PieceImage.render\<close> raises \<open>RuntimeError("inkscape app error")\<close>; the object, with
  its memory cache, is unchanged, and the world differs only by the two recorded events,
  so no file was written. When Inkscape exits with 0 and its output is no PNG image,
  \<open>render\<close> raises \<open>UnidentifiedImageError\<close>, again changing nothing.
  \<open>RuntimeError("inkscape file error")\<close> is raised only for a process that exits with 0
  and has no standard-output stream at all, which a process started with
  \<open>stdout=subprocess.PIPE\<close> never is.\<close>

theorem rasterizer_failure:
  "cache self (symbol piece) = None \<Longrightarrow> files w (cache_filepath self piece) = None \<Longrightarrow>
   (popen w (inkscape_args self piece) = Exited rcode out \<and> rcode \<noteq> 0 \<longrightarrow>
      PieceImage_render self w piece =
        (Inl (RuntimeError ''inkscape app error''), self,
         w\<lparr>events := events w @ [Exists (cache_filepath self piece),
                                  Spawn (inkscape_args self piece)]\<rparr>))
   \<and> (popen w (inkscape_args self piece) = Exited 0 (Some content)
        \<and> png_open w content = None \<longrightarrow>
      PieceImage_render self w piece =
        (Inl UnidentifiedImageError, self,
         w\<lparr>events := events w @ [Exists (cache_filepath self piece),
                                  Spawn (inkscape_args self piece)]\<rparr>))
   \<and> (popen w (inkscape_args self piece) \<noteq> Exited 0 None \<longrightarrow>
      fst (PieceImage_render self w piece) \<noteq> Inl (RuntimeError ''inkscape file error''))"
  by (auto simp: render_miss log_event_def Let_def split: proc.splits option.splits)

theorem rasterizer_failure_witness:
  "PieceImage_render demo_drawer demo_world_broken (Piece QUEEN False) =
     (Inl (RuntimeError ''inkscape app error''), demo_drawer,
      demo_world_broken\<lparr>events := [Exists (cache_filepath demo_drawer (Piece QUEEN False)),
                                     Spawn (inkscape_args demo_drawer (Piece QUEEN False))]\<rparr>)
   \<and> PieceImage_render demo_drawer demo_world_garbled (Piece KNIGHT True) =
     (Inl UnidentifiedImageError, demo_drawer,
      demo_world_garbled\<lparr>events := [Exists (cache_filepath demo_drawer (Piece KNIGHT True)),
                                      Spawn (inkscape_args demo_drawer (Piece KNIGHT True))]\<rparr>)
   \<and> fst (PieceImage_render demo_drawer demo_world_garbled (Piece KNIGHT True)) \<noteq>
       Inl (RuntimeError ''inkscape file error'')"
proof -
  have cold: "cache demo_drawer (symbol p) = None" for p
    by (simp add: demo_drawer_def)
  have nodisk: "files demo_world_broken (cache_filepath demo_drawer p) = None"
    "files demo_world_garbled (cache_filepath demo_drawer p) = None" for p
    by (simp_all add: demo_world_broken_def demo_world_garbled_def demo_world_def
          cache_filepath_def CACHE_LOCATION_def FONT_LOCATION_def)
  have broken: "popen demo_world_broken (inkscape_args demo_drawer (Piece QUEEN False)) = Exited 1 (Some [])"
    "events demo_world_broken = []"
    by (simp_all add: demo_world_broken_def demo_world_def)
  have garbled: "popen demo_world_garbled (inkscape_args demo_drawer (Piece KNIGHT True)) = Exited 0 (Some [7])"
    "png_open demo_world_garbled [7] = None" "events demo_world_garbled = []"
    by (simp_all add: demo_world_garbled_def demo_world_def)
  show ?thesis
    using rasterizer_failure [OF cold nodisk(1), where rcode = 1 and out = "Some []" and piece = "Piece QUEEN False"]
          rasterizer_failure [OF cold nodisk(2), where content = "[7]" and piece = "Piece KNIGHT True"]
    by (simp add: broken garbled)
qed


section \<open>Construction\<close>

text \<open>Claim C7. When the asset directory can be listed, \<open>list_themes\<close> returns the
  names of its subdirectories. Constructing a \<open>PieceImage\<close> with a theme that is not
  among them raises \<open>RuntimeError\<close> with the message that the theme does not exist;
  with a theme among them it returns the object, its memory cache empty. Either way the
  constructor only lists the directory: no file is opened and no process is started.\<close>

theorem init_theme_check:
  "dirs w PIECE_LOCATION = Some entries \<Longrightarrow>
   list_themes w = (Inr (map fst (filter snd entries)), w\<lparr>events := events w @ [ListDir PIECE_LOCATION]\<rparr>)
   \<and> (piece_theme cfg \<notin> set (map fst (filter snd entries)) \<longrightarrow>
        PieceImage_init w sz cfg =
          (Inl (RuntimeError (theme_missing_message (piece_theme cfg))),
           w\<lparr>events := events w @ [ListDir PIECE_LOCATION]\<rparr>))
   \<and> (piece_theme cfg \<in> set (map fst (filter snd entries)) \<longrightarrow>
        PieceImage_init w sz cfg =
          (Inr \<lparr>size' = sz, config = cfg, cache = Map.empty\<rparr>,
           w\<lparr>events := events w @ [ListDir PIECE_LOCATION]\<rparr>))"
  by (simp add: list_themes_def PieceImage_init_def Let_def log_event_def)

theorem init_theme_check_witness:
  "list_themes demo_world = (Inr [''cburnett''], demo_world\<lparr>events := [ListDir PIECE_LOCATION]\<rparr>)
   \<and> PieceImage_init demo_world 128 (default_Config\<lparr>piece_theme := ''LICENSE''\<rparr>) =
       (Inl (RuntimeError (theme_missing_message ''LICENSE'')),
        demo_world\<lparr>events := [ListDir PIECE_LOCATION]\<rparr>)
   \<and> PieceImage_init demo_world 128 default_Config =
       (Inr \<lparr>size' = 128, config = default_Config, cache = Map.empty\<rparr>,
        demo_world\<lparr>events := [ListDir PIECE_LOCATION]\<rparr>)"
proof -
  have d: "dirs demo_world PIECE_LOCATION = Some [(''cburnett'', True), (''LICENSE'', False)]"
    "events demo_world = []"
    by (simp_all add: demo_world_def)
  show ?thesis
    using init_theme_check [OF d(1), of "default_Config\<lparr>piece_theme := ''LICENSE''\<rparr>" 128]
          init_theme_check [OF d(1), of default_Config 128]
    by (simp add: d(2) default_Config_def)
qed

section \<open>The key of the memory cache\<close>

text \<open>Claim C10. The memory cache is keyed by \<open>piece.symbol()\<close>, one character, and
  not by the file-name token, which has two characters before the extension. The symbol
  is injective on pieces, and a white and a black piece of one kind have different
  symbols. So after an image is stored for a piece, a lookup for that piece returns it
  and a lookup for any other piece behaves as before.\<close>

theorem memory_cache_key:
  "inj symbol
   \<and> length (symbol p) = 1
   \<and> length (piece_to_filename p ext) = 2 + length ext
   \<and> symbol (Piece k True) \<noteq> symbol (Piece k False)
   \<and> fst (get_piece_from_cache (self\<lparr>cache := (cache self)(symbol p \<mapsto> img)\<rparr>) w q) =
       (if q = p then Inr (Some img) else fst (get_piece_from_cache self w q))"
proof -
  have neq: "q \<noteq> p \<Longrightarrow> symbol q \<noteq> symbol p" for q
    using symbol_inj by blast
  have "fst (get_piece_from_cache (self\<lparr>cache := (cache self)(symbol p \<mapsto> img)\<rparr>) w q) =
       (if q = p then Inr (Some img) else fst (get_piece_from_cache self w q))"
    by (auto simp: get_piece_from_cache_def cache_filepath_def Let_def neq split: option.splits)
  moreover have "inj symbol"
    by (rule injI) (rule symbol_inj)
  moreover have "symbol (Piece k True) \<noteq> symbol (Piece k False)"
    using symbol_inj by blast
  ultimately show ?thesis
    by (simp add: symbol_length filename_length)
qed


section \<open>Cells, squares and labels\<close>

lemma SQUARES_nth: "0 \<le> i \<Longrightarrow> i < 64 \<Longrightarrow> SQUARES ! nat i = i"
  by (simp add: SQUARES_def)

lemma SQUARES_length: "length SQUARES = 64"
  by (simp add: SQUARES_def)

lemma get_square_at_cell:
  "0 \<le> x \<Longrightarrow> x < 8 \<Longrightarrow> 0 \<le> y \<Longrightarrow> y < 8 \<Longrightarrow> get_square_at x y = Inr (x + (7 - y) * 8)"
  by (simp add: get_square_at_def py_index_def SQUARES_length SQUARES_nth)

lemma render_piece_empty:
  "get_square_at x y = Inr sq \<Longrightarrow> board self sq = None \<Longrightarrow>
   render_piece self w x y = (Inr (), self, w)"
  by (simp add: render_piece_def)

lemma render_piece_paste:
  "get_square_at x y = Inr sq \<Longrightarrow> board self sq = Some piece \<Longrightarrow>
   PieceImage_render (piece_drawer self) w piece = (Inr glyph, drawer, w1) \<Longrightarrow>
   image self = Some im \<Longrightarrow>
   render_piece self w x y =
     (Inr (), self\<lparr>piece_drawer := drawer,
                   image := Some (draw (Paste glyph (x * square_size self, y * square_size self)) im)\<rparr>,
      w1)"
  by (simp add: render_piece_def Let_def)

text \<open>Claim C3. For a cell with \<open>x\<close> and \<open>y\<close> in 0..7, \<open>_get_square_at\<close> returns the
  square with index \<open>x + (7 - y) * 8\<close>, whose file is \<open>x\<close> and whose rank is \<open>7 - y\<close>.
  \<open>_render_piece\<close> looks up that square: when it is empty nothing happens, when it holds
  a piece whose glyph can be rendered the glyph is pasted at \<open>(x * square_size,
  y * square_size)\<close>. So a8 is the cell (0, 0), drawn at pixel offset (0, 0), and a1 is the
  cell (0, 7), drawn at (0, 7 * square_size).\<close>

theorem cell_square_mapping:
  assumes "0 \<le> x" "x < 8" "0 \<le> y" "y < 8"
  shows "get_square_at x y = Inr (x + (7 - y) * 8)
     \<and> square_file (x + (7 - y) * 8) = x
     \<and> square_rank (x + (7 - y) * 8) = 7 - y
     \<and> (board self (x + (7 - y) * 8) = None \<longrightarrow>
          render_piece self w x y = (Inr (), self, w))
     \<and> (board self (x + (7 - y) * 8) = Some piece
          \<and> PieceImage_render (piece_drawer self) w piece = (Inr glyph, drawer, w1)
          \<and> image self = Some im \<longrightarrow>
          render_piece self w x y =
            (Inr (), self\<lparr>piece_drawer := drawer,
                          image := Some (draw (Paste glyph (x * square_size self,
                                                            y * square_size self)) im)\<rparr>,
             w1))
     \<and> get_square_at 0 0 = Inr A8
     \<and> get_square_at 0 7 = Inr A1"
proof -
  have sq: "get_square_at x y = Inr (x + (7 - y) * 8)"
    using assms by (rule get_square_at_cell)
  have fl: "square_file (x + (7 - y) * 8) = x"
    using assms unfolding square_file_def by presburger
  have rk: "square_rank (x + (7 - y) * 8) = 7 - y"
    using assms unfolding square_rank_def by presburger
  have corners: "get_square_at 0 0 = Inr A8" "get_square_at 0 7 = Inr A1"
    by (simp_all add: get_square_at_cell A8_def A1_def)
  show ?thesis
    using sq fl rk corners
    by (simp add: render_piece_empty render_piece_paste)
qed


lemma demo_render_cold:
  "PieceImage_render demo_drawer demo_world piece =
     (Inr demo_glyph, demo_drawer\<lparr>cache := [symbol piece \<mapsto> demo_glyph]\<rparr>,
      demo_world\<lparr>events := [Exists (cache_filepath demo_drawer piece),
                             Spawn (inkscape_args demo_drawer piece)]\<rparr>)"
proof -
  have cold: "cache demo_drawer = Map.empty"
    by (simp add: demo_drawer_def)
  have nodisk: "files demo_world (cache_filepath demo_drawer piece) = None"
    by (simp add: demo_world_def cache_filepath_def CACHE_LOCATION_def FONT_LOCATION_def)
  have ras: "popen demo_world (inkscape_args demo_drawer piece) = Exited 0 (Some [0])"
    "png_open demo_world [0] = Some demo_glyph" "events demo_world = []"
    by (simp_all add: demo_world_def)
  show ?thesis
    by (simp add: render_miss cold nodisk ras Let_def log_event_def)
qed

lemma demo_renderer_simps:
  "board demo_renderer = demo_board" "square_size demo_renderer = 128"
  "text_config demo_renderer = default_TextConfig"
  "square_config demo_renderer = default_SquareConfig"
  "piece_drawer demo_renderer = demo_drawer" "font demo_renderer = (FONT_LOCATION, 24)"
  "image demo_renderer = Some demo_canvas"
  by (simp_all add: demo_renderer_def)

theorem cell_square_mapping_witness:
  "render_piece demo_renderer demo_world 0 0 =
     (Inr (),
      demo_renderer\<lparr>piece_drawer := demo_drawer\<lparr>cache := [symbol (Piece KING False) \<mapsto> demo_glyph]\<rparr>,
                     image := Some (draw (Paste demo_glyph (0, 0)) demo_canvas)\<rparr>,
      demo_world\<lparr>events := [Exists (cache_filepath demo_drawer (Piece KING False)),
                             Spawn (inkscape_args demo_drawer (Piece KING False))]\<rparr>)
   \<and> render_piece demo_renderer demo_world 0 7 =
     (Inr (),
      demo_renderer\<lparr>piece_drawer := demo_drawer\<lparr>cache := [symbol (Piece KING True) \<mapsto> demo_glyph]\<rparr>,
                     image := Some (draw (Paste demo_glyph (0, 7 * 128)) demo_canvas)\<rparr>,
      demo_world\<lparr>events := [Exists (cache_filepath demo_drawer (Piece KING True)),
                             Spawn (inkscape_args demo_drawer (Piece KING True))]\<rparr>)
   \<and> render_piece demo_renderer demo_world 3 4 = (Inr (), demo_renderer, demo_world)"
proof -
  have b: "board demo_renderer (0 + (7 - 0) * 8) = Some (Piece KING False)"
    "board demo_renderer (0 + (7 - 7) * 8) = Some (Piece KING True)"
    "board demo_renderer (3 + (7 - 4) * 8) = None"
    by (simp_all add: demo_renderer_simps demo_board_def A8_def A1_def)
  have r: "PieceImage_render (piece_drawer demo_renderer) demo_world piece =
     (Inr demo_glyph, demo_drawer\<lparr>cache := [symbol piece \<mapsto> demo_glyph]\<rparr>,
      demo_world\<lparr>events := [Exists (cache_filepath demo_drawer piece),
                             Spawn (inkscape_args demo_drawer piece)]\<rparr>)" for piece
    by (simp add: demo_renderer_simps demo_render_cold)
  have i: "image demo_renderer = Some demo_canvas"
    by (simp add: demo_renderer_simps)
  have a8: "render_piece demo_renderer demo_world 0 0 =
     (Inr (),
      demo_renderer\<lparr>piece_drawer := demo_drawer\<lparr>cache := [symbol (Piece KING False) \<mapsto> demo_glyph]\<rparr>,
                     image := Some (draw (Paste demo_glyph (0 * square_size demo_renderer,
                                                            0 * square_size demo_renderer)) demo_canvas)\<rparr>,
      demo_world\<lparr>events := [Exists (cache_filepath demo_drawer (Piece KING False)),
                             Spawn (inkscape_args demo_drawer (Piece KING False))]\<rparr>)"
    using cell_square_mapping [where x = 0 and y = 0 and self = demo_renderer and piece = "Piece KING False"
        and w = demo_world and glyph = demo_glyph and im = demo_canvas]
      b(1) r i by simp
  have a1: "render_piece demo_renderer demo_world 0 7 =
     (Inr (),
      demo_renderer\<lparr>piece_drawer := demo_drawer\<lparr>cache := [symbol (Piece KING True) \<mapsto> demo_glyph]\<rparr>,
                     image := Some (draw (Paste demo_glyph (0 * square_size demo_renderer,
                                                            7 * square_size demo_renderer)) demo_canvas)\<rparr>,
      demo_world\<lparr>events := [Exists (cache_filepath demo_drawer (Piece KING True)),
                             Spawn (inkscape_args demo_drawer (Piece KING True))]\<rparr>)"
    using cell_square_mapping [where x = 0 and y = 7 and self = demo_renderer and piece = "Piece KING True"
        and w = demo_world and glyph = demo_glyph and im = demo_canvas]
      b(2) r i by simp
  have d5: "render_piece demo_renderer demo_world 3 4 = (Inr (), demo_renderer, demo_world)"
    using cell_square_mapping [where x = 3 and y = 4 and self = demo_renderer and w = demo_world] b(3) by simp
  show ?thesis
    using a8 a1 d5 by (simp add: demo_renderer_simps)
qed

lemma render_square_background_cell:
  assumes "0 \<le> x" "x < 8" "0 \<le> y" "y < 8" "image self = Some im"
  shows "render_square_background self x y hs =
     Inr (self\<lparr>image := Some (draw
            (Rectangle (x * square_size self, y * square_size self,
                        x * square_size self + square_size self,
                        y * square_size self + square_size self)
               ((if x + (7 - y) * 8 \<in> set hs
                 then SquareConfig_highlight_color (square_config self)
                 else SquareConfig_color (square_config self)) ! nat ((x + y) mod 2))) im)\<rparr>)"
  using assms by (simp add: render_square_background_def get_square_at_cell Let_def)

lemma htext_index: "0 \<le> x \<Longrightarrow> x < 8 \<Longrightarrow> py_index ''abcdefgh'' x = Inr (''abcdefgh'' ! nat x)"
  by (simp add: py_index_def)

lemma vtext_index: "0 \<le> y \<Longrightarrow> y < 8 \<Longrightarrow> py_index ''87654321'' y = Inr (''87654321'' ! nat y)"
  by (simp add: py_index_def)

lemma draw_file_label_cell:
  assumes "0 \<le> x" "x < 8" "image self = Some im"
  shows "draw_file_label self x y =
     Inr (self\<lparr>image := Some (draw
            (Text (x * square_size self + padding (text_config self),
                   y * square_size self + square_size self - padding (text_config self))
               [''abcdefgh'' ! nat x]
               (TextConfig_color (text_config self) ! nat (x mod 2)) ''ls'' (font self)) im)\<rparr>)"
  using assms by (simp add: draw_file_label_def htext_index Let_def)

lemma draw_rank_label_cell:
  assumes "0 \<le> y" "y < 8" "image self = Some im"
  shows "draw_rank_label self x y =
     Inr (self\<lparr>image := Some (draw
            (Text (x * square_size self + square_size self - padding (text_config self),
                   y * square_size self + padding (text_config self))
               [''87654321'' ! nat y]
               (TextConfig_color (text_config self) ! nat (y mod 2)) ''rt'' (font self)) im)\<rparr>)"
  using assms by (simp add: draw_rank_label_def vtext_index Let_def)

text \<open>Claim C1 says that the labels are coloured by the index \<open>(col + row) mod 2\<close>. At the
  cell (0, 7), square a1, the file letter is drawn with the text colour of index 0, the
  light one, while \<open>(0 + 7) mod 2\<close> is 1 and selects the dark one.\<close>

theorem label_color_counterexample:
  "render_square_location demo_renderer 0 7 =
     Inr (demo_renderer\<lparr>image := Some (draw
            (Text (8, 1016) ''a'' (TextConfig_color (text_config demo_renderer) ! 0) ''ls''
               (FONT_LOCATION, 24)) demo_canvas)\<rparr>)
   \<and> TextConfig_color (text_config demo_renderer) ! 0 \<noteq>
       TextConfig_color (text_config demo_renderer) ! nat ((0 + 7) mod 2)"
  by (simp add: render_square_location_def draw_file_label_cell [where im = demo_canvas]
        demo_renderer_simps default_TextConfig_def TextConfig_color_def)

text \<open>Claim C1, amended. For a cell with \<open>x\<close> and \<open>y\<close> in 0..7, the rectangle is filled
  with the entry \<open>(x + y) mod 2\<close> of the fill colours, or of the highlight colours when the
  square is highlighted: one index for both. The file letter, drawn when \<open>y = 7\<close>, has the
  text colour of index \<open>x mod 2\<close>, and the rank digit, drawn when \<open>x = 7\<close>, the one of
  index \<open>y mod 2\<close>; on these cells both are \<open>1 - (x + y) mod 2\<close>, the opposite index, so
  that a label on a dark square is light and a label on a light square is dark.\<close>

theorem label_color_index:
  assumes "0 \<le> x" "x < 8" "0 \<le> y" "y < 8" "image self = Some im"
  shows "render_square_background self x y hs =
     Inr (self\<lparr>image := Some (draw
            (Rectangle (x * square_size self, y * square_size self,
                        x * square_size self + square_size self,
                        y * square_size self + square_size self)
               ((if x + (7 - y) * 8 \<in> set hs
                 then SquareConfig_highlight_color (square_config self)
                 else SquareConfig_color (square_config self)) ! nat ((x + y) mod 2))) im)\<rparr>)
   \<and> render_square_location self x y =
     Inr (self\<lparr>image := Some (im\<lparr>ops := ops im
            @ (if y = 7
               then [Text (x * square_size self + padding (text_config self),
                           y * square_size self + square_size self - padding (text_config self))
                       [''abcdefgh'' ! nat x]
                       (TextConfig_color (text_config self) ! nat (1 - (x + y) mod 2))
                       ''ls'' (font self)]
               else [])
            @ (if x = 7
               then [Text (x * square_size self + square_size self - padding (text_config self),
                           y * square_size self + padding (text_config self))
                       [''87654321'' ! nat y]
                       (TextConfig_color (text_config self) ! nat (1 - (x + y) mod 2))
                       ''rt'' (font self)]
               else [])\<rparr>)\<rparr>)"
proof -
  have fx: "y = 7 \<Longrightarrow> x mod 2 = 1 - (x + y) mod 2"
    by presburger
  have fy: "x = 7 \<Longrightarrow> y mod 2 = 1 - (x + y) mod 2"
    by presburger
  have loc: "render_square_location self x y =
     Inr (self\<lparr>image := Some (im\<lparr>ops := ops im
            @ (if y = 7
               then [Text (x * square_size self + padding (text_config self),
                           y * square_size self + square_size self - padding (text_config self))
                       [''abcdefgh'' ! nat x]
                       (TextConfig_color (text_config self) ! nat (x mod 2))
                       ''ls'' (font self)]
               else [])
            @ (if x = 7
               then [Text (x * square_size self + square_size self - padding (text_config self),
                           y * square_size self + padding (text_config self))
                       [''87654321'' ! nat y]
                       (TextConfig_color (text_config self) ! nat (y mod 2))
                       ''rt'' (font self)]
               else [])\<rparr>)\<rparr>)"
    using assms
    by (simp add: render_square_location_def draw_file_label_cell draw_rank_label_cell draw_def)
  show ?thesis
    using render_square_background_cell [OF assms, of hs] loc fx fy
    by (simp cong: if_cong)
qed

theorem label_color_index_witness:
  "render_square_background demo_renderer 0 7 [A1] =
     Inr (demo_renderer\<lparr>image := Some (draw (Rectangle (0, 896, 128, 1024) (170, 162, 58))
                                          demo_canvas)\<rparr>)
   \<and> render_square_location demo_renderer 0 7 =
     Inr (demo_renderer\<lparr>image := Some (demo_canvas\<lparr>ops :=
            [Text (8, 1016) ''a'' (240, 217, 181) ''ls'' (FONT_LOCATION, 24)]\<rparr>)\<rparr>)"
proof -
  have i: "image demo_renderer = Some demo_canvas"
    by (simp add: demo_renderer_simps)
  have o: "ops demo_canvas = []"
    by (simp add: demo_canvas_def)
  show ?thesis
    using label_color_index [where x = 0 and y = 7 and self = demo_renderer and im = demo_canvas
        and hs = "[A1]", OF _ _ _ _ i]
    by (simp add: demo_renderer_simps o A1_def default_TextConfig_def TextConfig_color_def
          default_SquareConfig_def SquareConfig_highlight_color_def)
qed


section \<open>The rendering loop\<close>

lemma render_cells_append:
  "render_cells self w hs (cs @ ds) =
     (case render_cells self w hs cs of
        (Inl e, self1, w1) \<Rightarrow> (Inl e, self1, w1)
      | (Inr u, self1, w1) \<Rightarrow> render_cells self1 w1 hs ds)"
  by (induction cs arbitrary: self w) (auto split: prod.splits sum.splits)

lemma render_ys_cells: "render_ys self w hs x ys = render_cells self w hs (map (Pair x) ys)"
  by (induction ys arbitrary: self w) (auto split: prod.splits sum.splits)

lemma render_xs_cells: "render_xs self w hs xs = render_cells self w hs (board_cells xs)"
  by (induction xs arbitrary: self w)
     (auto simp: board_cells_def render_cells_append render_ys_cells split: prod.splits sum.splits)

lemma board_cells_in_board: "c \<in> set (board_cells [0..7]) \<Longrightarrow> in_board c"
  by (auto simp: board_cells_def in_board_def)


lemma render_errors:
  assumes r: "PieceImage_render drawer w piece = (Inl e, drawer1, w1)"
  shows "raised_by_drawer e"
proof (cases "cache drawer (symbol piece)")
  case (Some img)
  with r show ?thesis by (simp add: render_hit)
next
  case None
  show ?thesis
  proof (cases "files w (cache_filepath drawer piece)")
    case (Some content)
    with None r show ?thesis
      by (cases "png_open w content") (auto simp: render_disk render_disk_bad raised_by_drawer_def)
  next
    case nofile: None
    from r show ?thesis
      unfolding render_miss [OF None nofile] Let_def
      by (auto simp: raised_by_drawer_def split: proc.splits option.splits if_splits)
  qed
qed

lemma add_ops_simps [simp]:
  "board (add_ops new self) = board self" "square_size (add_ops new self) = square_size self"
  "text_config (add_ops new self) = text_config self"
  "square_config (add_ops new self) = square_config self"
  "piece_drawer (add_ops new self) = piece_drawer self" "font (add_ops new self) = font self"
  "FenToImage.config (add_ops new self) = FenToImage.config self"
  "image (add_ops new self) = map_option (\<lambda>im. im\<lparr>ops := ops im @ new\<rparr>) (image self)"
  by (simp_all add: add_ops_def)

lemma add_ops_add_ops: "add_ops b (add_ops a self) = add_ops (a @ b) self"
  by (cases "image self") (simp_all add: add_ops_def)

lemma add_ops_drawer:
  "add_ops new (self\<lparr>piece_drawer := d\<rparr>) = (add_ops new self)\<lparr>piece_drawer := d\<rparr>"
  by (simp add: add_ops_def)

lemma background_ops:
  assumes "in_board (x, y)" "image self = Some im"
  shows "render_square_background self x y hs =
           Inr (add_ops [Rectangle (cell_box (square_size self) x y) (cell_fill self hs x y)] self)"
proof -
  from assms have range: "0 \<le> x" "x < 8" "0 \<le> y" "y < 8"
    by (simp_all add: in_board_def)
  show ?thesis
    unfolding render_square_background_cell [OF range assms(2)]
    by (simp add: add_ops_def assms(2) draw_def cell_box_def cell_fill_def)
qed

lemma location_ops:
  assumes "in_board (x, y)" "image self = Some im"
  shows "render_square_location self x y = Inr (add_ops (cell_labels self x y) self)"
proof -
  from assms have range: "0 \<le> x" "x < 8" "0 \<le> y" "y < 8"
    by (simp_all add: in_board_def)
  show ?thesis
    using range assms(2)
    by (simp add: render_square_location_def draw_file_label_cell draw_rank_label_cell draw_def
          add_ops_def cell_labels_def)
qed

lemma piece_ops:
  assumes "in_board (x, y)" "image self = Some im"
  shows "render_piece self w x y =
     (case board self (x + (7 - y) * 8) of
        None \<Rightarrow> (Inr (), self, w)
      | Some piece \<Rightarrow>
          (case PieceImage_render (piece_drawer self) w piece of
             (Inl e, drawer, w1) \<Rightarrow> (Inl e, self\<lparr>piece_drawer := drawer\<rparr>, w1)
           | (Inr glyph, drawer, w1) \<Rightarrow>
               (Inr (), add_ops [Paste glyph (x * square_size self, y * square_size self)]
                          (self\<lparr>piece_drawer := drawer\<rparr>), w1)))"
proof -
  from assms have range: "0 \<le> x" "x < 8" "0 \<le> y" "y < 8"
    by (simp_all add: in_board_def)
  show ?thesis
    by (simp add: render_piece_def get_square_at_cell [OF range] assms(2) Let_def add_ops_def draw_def
          split: option.splits prod.splits sum.splits)
qed

lemma cell_labels_add_ops [simp]: "cell_labels (add_ops new self) x y = cell_labels self x y"
  by (simp add: cell_labels_def)

lemma render_cell_ops:
  assumes cell: "in_board (x, y)" and im: "image self = Some im"
  shows "render_cell self w hs x y =
     (case board self (x + (7 - y) * 8) of
        None \<Rightarrow> (Inr (), add_ops (cell_ground self hs x y) self, w)
      | Some piece \<Rightarrow>
          (case PieceImage_render (piece_drawer self) w piece of
             (Inl e, drawer, w1) \<Rightarrow>
               (Inl e, (add_ops (cell_ground self hs x y) self)\<lparr>piece_drawer := drawer\<rparr>, w1)
           | (Inr glyph, drawer, w1) \<Rightarrow>
               (Inr (),
                (add_ops (cell_ground self hs x y
                          @ [Paste glyph (x * square_size self, y * square_size self)]) self)
                  \<lparr>piece_drawer := drawer\<rparr>, w1)))"
proof -
  let ?bg = "add_ops [Rectangle (cell_box (square_size self) x y) (cell_fill self hs x y)] self"
  have im1: "image ?bg = Some (im\<lparr>ops := ops im @ [Rectangle (cell_box (square_size self) x y) (cell_fill self hs x y)]\<rparr>)"
    by (simp add: im)
  let ?gr = "add_ops (cell_ground self hs x y) self"
  have loc: "(if enabled (text_config ?bg) then render_square_location ?bg x y else Inr ?bg) = Inr ?gr"
    by (simp add: location_ops [OF cell im1] add_ops_add_ops cell_ground_def)
  have im2: "image ?gr = Some (im\<lparr>ops := ops im @ cell_ground self hs x y\<rparr>)"
    by (simp add: im)
  have "render_cell self w hs x y = render_piece ?gr w x y"
    unfolding render_cell_def background_ops [OF cell im] using loc by simp
  also have "\<dots> = (case board self (x + (7 - y) * 8) of
        None \<Rightarrow> (Inr (), ?gr, w)
      | Some piece \<Rightarrow>
          (case PieceImage_render (piece_drawer self) w piece of
             (Inl e, drawer, w1) \<Rightarrow> (Inl e, ?gr\<lparr>piece_drawer := drawer\<rparr>, w1)
           | (Inr glyph, drawer, w1) \<Rightarrow>
               (Inr (), add_ops [Paste glyph (x * square_size self, y * square_size self)]
                          (?gr\<lparr>piece_drawer := drawer\<rparr>), w1)))"
    unfolding piece_ops [OF cell im2] by (simp split: option.splits prod.splits sum.splits)
  finally show ?thesis
    by (simp add: add_ops_drawer add_ops_add_ops split: option.splits prod.splits sum.splits)
qed

lemma canvas_ready_add_ops [simp]: "canvas_ready sz (add_ops new self) = canvas_ready sz self"
  by (cases "image self") (simp_all add: canvas_ready_def)

lemma canvas_ready_drawer [simp]:
  "canvas_ready sz (self\<lparr>piece_drawer := d\<rparr>) = canvas_ready sz self"
  by (simp add: canvas_ready_def)

lemma render_cell_ready:
  assumes "in_board (x, y)" "canvas_ready sz self"
  shows "case render_cell self w hs x y of
           (r, self1, w1) \<Rightarrow>
             canvas_ready sz self1 \<and> board self1 = board self
             \<and> (\<forall>e. r = Inl e \<longrightarrow> raised_by_drawer e \<and> (\<exists>sq piece. board self sq = Some piece))"
proof -
  from assms(2) obtain im where im: "image self = Some im"
    by (auto simp: canvas_ready_def split: option.splits)
  show ?thesis
  proof (cases "board self (x + (7 - y) * 8)")
    case None
    then show ?thesis
      by (simp add: render_cell_ops [OF assms(1) im] assms(2))
  next
    case (Some piece)
    obtain r drawer w1 where call: "PieceImage_render (piece_drawer self) w piece = (r, drawer, w1)"
      by (cases "PieceImage_render (piece_drawer self) w piece") auto
    show ?thesis
    proof (cases r)
      case (Inl e)
      with call have "raised_by_drawer e" by (auto dest: render_errors)
      moreover from Some have "\<exists>sq piece. board self sq = Some piece" by blast
      ultimately show ?thesis
        using Inl call Some by (simp add: render_cell_ops [OF assms(1) im] assms(2))
    next
      case (Inr glyph)
      with call Some show ?thesis
        by (simp add: render_cell_ops [OF assms(1) im] assms(2))
    qed
  qed
qed

lemma render_cells_ready:
  "\<forall>c\<in>set cs. in_board c \<Longrightarrow> canvas_ready sz self \<Longrightarrow>
   (case render_cells self w hs cs of
      (r, self1, w1) \<Rightarrow>
        canvas_ready sz self1 \<and> board self1 = board self
        \<and> (\<forall>e. r = Inl e \<longrightarrow> raised_by_drawer e \<and> (\<exists>sq piece. board self sq = Some piece)))"
proof (induction cs arbitrary: self w)
  case Nil
  then show ?case by simp
next
  case (Cons c cs)
  obtain r self1 w1 where step: "render_cell self w hs (fst c) (snd c) = (r, self1, w1)"
    by (cases "render_cell self w hs (fst c) (snd c)") auto
  from Cons.prems have "in_board (fst c, snd c)" by simp
  from render_cell_ready [OF this Cons.prems(2), of w hs] step
  have ready: "canvas_ready sz self1" and b: "board self1 = board self"
    and err: "\<forall>e. r = Inl e \<longrightarrow> raised_by_drawer e \<and> (\<exists>sq piece. board self sq = Some piece)"
    by auto
  show ?case
  proof (cases r)
    case (Inl e)
    with step ready b err show ?thesis by simp
  next
    case (Inr u)
    from Cons.prems(1) have rest: "\<forall>c\<in>set cs. in_board c" by simp
    from Cons.IH [OF rest ready, of w1] Inr step b show ?thesis
      by (simp split: prod.splits)
  qed
qed

lemma init_image_ok:
  "0 \<le> square_size self \<Longrightarrow> 8 * square_size self < 2 ^ 31 \<Longrightarrow>
   can_allocate w (8 * square_size self, 8 * square_size self) \<Longrightarrow>
   init_image self w =
     Inr (self\<lparr>image := Some \<lparr>canvas_size = (square_size self * 8, square_size self * 8), ops = []\<rparr>\<rparr>)"
  by (simp add: init_image_def Let_def mult.commute)

lemma init_image_overflow:
  "2 ^ 31 \<le> 8 * square_size self \<Longrightarrow> init_image self w = Inl OverflowError"
  by (simp add: init_image_def Let_def mult.commute)

lemma init_image_memory:
  "0 \<le> square_size self \<Longrightarrow> 8 * square_size self < 2 ^ 31 \<Longrightarrow>
   \<not> can_allocate w (8 * square_size self, 8 * square_size self) \<Longrightarrow>
   init_image self w = Inl MemoryError"
  by (simp add: init_image_def Let_def mult.commute)

lemma init_image_fresh: "init_image (self\<lparr>image := old\<rparr>) w = init_image self w"
  by (simp add: init_image_def Let_def)

lemma render_outcome:
  assumes "0 < square_size self" "8 * square_size self < 2 ^ 31"
    "can_allocate w (8 * square_size self, 8 * square_size self)"
  shows "case FenToImage_render self w hs of
            (Inr im, self1, w1) \<Rightarrow>
              canvas_size im = (8 * square_size self, 8 * square_size self)
          | (Inl e, self1, w1) \<Rightarrow>
              raised_by_drawer e \<and> (\<exists>sq piece. board self sq = Some piece)"
proof -
  let ?sz = "(square_size self * 8, square_size self * 8)"
  let ?self1 = "self\<lparr>image := Some \<lparr>canvas_size = ?sz, ops = []\<rparr>\<rparr>"
  have init: "init_image self w = Inr ?self1"
    using assms by (simp add: init_image_ok)
  have ready: "canvas_ready ?sz ?self1"
    by (simp add: canvas_ready_def)
  have cells: "\<forall>c\<in>set (board_cells [0..7]). in_board c"
    by (blast intro: board_cells_in_board)
  obtain r self2 w2 where loop: "render_cells ?self1 w hs (board_cells [0..7]) = (r, self2, w2)"
    by (cases "render_cells ?self1 w hs (board_cells [0..7])") auto
  from render_cells_ready [OF cells ready, of w hs] loop
  have fin: "canvas_ready ?sz self2"
    and err: "\<forall>e. r = Inl e \<longrightarrow> raised_by_drawer e \<and> (\<exists>sq piece. board self sq = Some piece)"
    by auto
  show ?thesis
  proof (cases r)
    case (Inl e)
    with loop err show ?thesis
      by (simp add: FenToImage_render_def init render_xs_cells)
  next
    case (Inr u)
    with loop fin show ?thesis
      by (auto simp: FenToImage_render_def init render_xs_cells canvas_ready_def
               split: option.splits)
  qed
qed

lemma render_succeeds:
  assumes "0 < square_size self" "8 * square_size self < 2 ^ 31"
    "can_allocate w (8 * square_size self, 8 * square_size self)"
    "board self = (\<lambda>sq. None)"
  shows "\<not> isl (fst (FenToImage_render self w hs))"
proof -
  obtain r self1 w1 where run: "FenToImage_render self w hs = (r, self1, w1)"
    by (cases "FenToImage_render self w hs") auto
  show ?thesis
    using render_outcome [OF assms(1-3), of hs]
    by (cases r) (simp_all add: run assms(4))
qed

text \<open>Claim C4. For every position, every list of highlighted squares and every positive
  square size, a canvas that \<open>render\<close> returns has exactly \<open>8 * square_size\<close> by
  \<open>8 * square_size\<close> pixels, and it is fresh: whatever image the object held before has
  no influence on the result. \<open>render\<close> returns no canvas in three cases only:
  \<open>Image.new\<close> raises \<open>OverflowError\<close> because \<open>8 * square_size\<close> is \<open>2 ^ 31\<close> or more;
  it raises \<open>MemoryError\<close> because the machine cannot allocate the image; or the piece
  drawer raises while rendering a piece of the position. So on an empty board, with a
  size below that bound and memory for the image, \<open>render\<close> always returns the
  canvas.\<close>

theorem render_canvas_size:
  assumes "0 < square_size self"
  shows "(case FenToImage_render self w hs of
            (Inr im, self1, w1) \<Rightarrow>
              canvas_size im = (8 * square_size self, 8 * square_size self)
              \<and> 8 * square_size self < 2 ^ 31
              \<and> can_allocate w (8 * square_size self, 8 * square_size self)
          | (Inl e, self1, w1) \<Rightarrow>
              (if 2 ^ 31 \<le> 8 * square_size self then e = OverflowError
               else if \<not> can_allocate w (8 * square_size self, 8 * square_size self)
               then e = MemoryError
               else raised_by_drawer e \<and> (\<exists>sq piece. board self sq = Some piece)))
     \<and> fst (FenToImage_render (self\<lparr>image := old\<rparr>) w hs) = fst (FenToImage_render self w hs)"
proof -
  have fresh: "fst (FenToImage_render (self\<lparr>image := old\<rparr>) w hs) = fst (FenToImage_render self w hs)"
    by (cases "init_image self w") (simp_all add: FenToImage_render_def init_image_fresh)
  have "case FenToImage_render self w hs of
            (Inr im, self1, w1) \<Rightarrow>
              canvas_size im = (8 * square_size self, 8 * square_size self)
              \<and> 8 * square_size self < 2 ^ 31
              \<and> can_allocate w (8 * square_size self, 8 * square_size self)
          | (Inl e, self1, w1) \<Rightarrow>
              (if 2 ^ 31 \<le> 8 * square_size self then e = OverflowError
               else if \<not> can_allocate w (8 * square_size self, 8 * square_size self)
               then e = MemoryError
               else raised_by_drawer e \<and> (\<exists>sq piece. board self sq = Some piece))"
  proof (cases "2 ^ 31 \<le> 8 * square_size self")
    case True
    then show ?thesis
      by (simp add: FenToImage_render_def init_image_overflow)
  next
    case small: False
    show ?thesis
    proof (cases "can_allocate w (8 * square_size self, 8 * square_size self)")
      case False
      with small assms show ?thesis
        by (simp add: FenToImage_render_def init_image_memory)
    next
      case True
      obtain r self1 w1 where run: "FenToImage_render self w hs = (r, self1, w1)"
        by (cases "FenToImage_render self w hs") auto
      from small have "8 * square_size self < 2 ^ 31" by simp
      from render_outcome [OF assms this True, of hs] small True show ?thesis
        by (cases r) (simp_all add: run)
    qed
  qed
  with fresh show ?thesis by simp
qed

theorem render_canvas_size_witness:
  "map_sum id canvas_size (fst (FenToImage_render demo_empty demo_world [A8])) = Inr (1024, 1024)
   \<and> fst (FenToImage_render demo_huge demo_world [A8]) = Inl OverflowError"
proof -
  have s: "square_size demo_empty = 128" "board demo_empty = (\<lambda>sq. None)"
    by (simp_all add: demo_empty_def demo_renderer_simps)
  have pos: "0 < square_size demo_empty"
    by (simp add: s)
  have mem: "can_allocate demo_world (1024, 1024)"
    by (simp add: demo_world_def)
  obtain r self1 w1 where run: "FenToImage_render demo_empty demo_world [A8] = (r, self1, w1)"
    by (cases "FenToImage_render demo_empty demo_world [A8]") auto
  have small: "map_sum id canvas_size (fst (FenToImage_render demo_empty demo_world [A8])) =
      Inr (1024, 1024)"
    using render_canvas_size [OF pos, of demo_world "[A8]"]
    by (cases r) (simp_all add: run s mem)
  have h: "square_size demo_huge = 2 ^ 28"
    by (simp add: demo_huge_def)
  have hpos: "0 < square_size demo_huge"
    by (simp add: h)
  obtain r' self2 w2 where run': "FenToImage_render demo_huge demo_world [A8] = (r', self2, w2)"
    by (cases "FenToImage_render demo_huge demo_world [A8]") auto
  have huge: "fst (FenToImage_render demo_huge demo_world [A8]) = Inl OverflowError"
    using render_canvas_size [OF hpos, of demo_world "[A8]"]
    by (cases r') (simp_all add: run' h)
  from small huge show ?thesis by simp
qed


section \<open>Highlighting\<close>

lemma on_state_simps [simp]: "on_state f (r, self, w) = (r, f self, w)"
  by (simp add: on_state_def)

lemma recolor_simps [simp]:
  "board (recolor a b self) = board self" "square_size (recolor a b self) = square_size self"
  "text_config (recolor a b self) = text_config self"
  "piece_drawer (recolor a b self) = piece_drawer self" "font (recolor a b self) = font self"
  "image (recolor a b self) = image self"
  "SquareConfig_color (square_config (recolor a b self)) = SquareConfig_color (square_config self)"
  "recolor a b (self\<lparr>image := i\<rparr>) = (recolor a b self)\<lparr>image := i\<rparr>"
  "recolor a b (self\<lparr>piece_drawer := d\<rparr>) = (recolor a b self)\<lparr>piece_drawer := d\<rparr>"
  by (simp_all add: recolor_def SquareConfig_color_def)

lemma background_recolor:
  "render_square_background (recolor a b self) x y [] =
     map_sum id (recolor a b) (render_square_background self x y [])"
  by (simp add: render_square_background_def Let_def split: sum.splits option.splits)

lemma file_label_recolor:
  "draw_file_label (recolor a b self) x y = map_sum id (recolor a b) (draw_file_label self x y)"
  by (simp add: draw_file_label_def Let_def split: sum.splits option.splits)

lemma rank_label_recolor:
  "draw_rank_label (recolor a b self) x y = map_sum id (recolor a b) (draw_rank_label self x y)"
  by (simp add: draw_rank_label_def Let_def split: sum.splits option.splits)

lemma location_recolor:
  "render_square_location (recolor a b self) x y =
     map_sum id (recolor a b) (render_square_location self x y)"
  by (simp add: render_square_location_def file_label_recolor rank_label_recolor
           split: sum.splits)

lemma piece_recolor:
  "render_piece (recolor a b self) w x y = on_state (recolor a b) (render_piece self w x y)"
  by (simp add: render_piece_def Let_def split: sum.splits option.splits prod.splits)

lemma cell_recolor:
  "render_cell (recolor a b self) w [] x y = on_state (recolor a b) (render_cell self w [] x y)"
proof (cases "render_square_background self x y []")
  case (Inl e)
  then show ?thesis
    by (simp add: render_cell_def background_recolor)
next
  case (Inr self1)
  show ?thesis
  proof (cases "enabled (text_config self1)")
    case False
    with Inr show ?thesis
      by (simp add: render_cell_def background_recolor piece_recolor)
  next
    case True
    with Inr show ?thesis
      by (cases "render_square_location self1 x y")
         (simp_all add: render_cell_def background_recolor location_recolor piece_recolor)
  qed
qed

lemma cells_recolor:
  "render_cells (recolor a b self) w [] cs = on_state (recolor a b) (render_cells self w [] cs)"
proof (induction cs arbitrary: self w)
  case Nil
  show ?case by simp
next
  case (Cons c cs)
  obtain r self1 w1 where step: "render_cell self w [] (fst c) (snd c) = (r, self1, w1)"
    by (cases "render_cell self w [] (fst c) (snd c)") auto
  show ?case
    by (cases r) (simp_all add: cell_recolor step Cons.IH)
qed

lemma init_recolor:
  "init_image (recolor a b self) w = map_sum id (recolor a b) (init_image self w)"
  by (simp add: init_image_def Let_def)

lemma render_recolor:
  "fst (FenToImage_render (recolor a b self) w []) = fst (FenToImage_render self w [])"
proof (cases "init_image self w")
  case (Inl e)
  then show ?thesis
    by (simp add: FenToImage_render_def init_recolor)
next
  case (Inr self1)
  obtain r self2 w2 where loop: "render_cells self1 w [] (board_cells [0..7]) = (r, self2, w2)"
    by (cases "render_cells self1 w [] (board_cells [0..7])") auto
  show ?thesis
    by (cases r)
       (simp_all add: FenToImage_render_def init_recolor Inr render_xs_cells cells_recolor loop
          split: option.splits)
qed

text \<open>Claim C8. For a cell with \<open>x\<close> and \<open>y\<close> in 0..7, the mapped square is
  \<open>x + (7 - y) * 8\<close>, and the rectangle of the cell is filled with the entry
  \<open>(x + y) mod 2\<close> of the fill colours unless that square is among the highlighted
  squares, where the entry of the same index of the highlight colours is used. With no
  highlighted square, what \<open>render\<close> returns does not depend on the highlight colours
  at all: replacing them by any other two colours gives the same canvas or error.\<close>

theorem highlight_fill:
  "(0 \<le> x \<and> x < 8 \<and> 0 \<le> y \<and> y < 8 \<and> image self = Some im \<longrightarrow>
      get_square_at x y = Inr (x + (7 - y) * 8)
      \<and> render_square_background self x y hs =
          Inr (self\<lparr>image := Some (draw
                 (Rectangle (x * square_size self, y * square_size self,
                             x * square_size self + square_size self,
                             y * square_size self + square_size self)
                    (if x + (7 - y) * 8 \<in> set hs
                     then SquareConfig_highlight_color (square_config self) ! nat ((x + y) mod 2)
                     else SquareConfig_color (square_config self) ! nat ((x + y) mod 2))) im)\<rparr>))
   \<and> fst (FenToImage_render
            (self\<lparr>square_config := (square_config self)\<lparr>light_highlight_color := a,
                                                         dark_highlight_color := b\<rparr>\<rparr>) w [])
       = fst (FenToImage_render self w [])"
  using render_recolor [of a b self w]
  by (simp add: recolor_def render_square_background_cell get_square_at_cell)

theorem highlight_fill_witness:
  "get_square_at 0 0 = Inr 56
   \<and> render_square_background demo_renderer 0 0 [A8] =
       Inr (demo_renderer\<lparr>image := Some (draw (Rectangle (0, 0, 128, 128) (205, 210, 106))
                                            demo_canvas)\<rparr>)
   \<and> render_square_background demo_renderer 0 0 [] =
       Inr (demo_renderer\<lparr>image := Some (draw (Rectangle (0, 0, 128, 128) (240, 217, 181))
                                            demo_canvas)\<rparr>)"
proof -
  have i: "(0::int) \<le> 0 \<and> (0::int) < 8 \<and> (0::int) \<le> 0 \<and> (0::int) < 8 \<and> image demo_renderer = Some demo_canvas"
    by (simp add: demo_renderer_simps)
  show ?thesis
    using highlight_fill [where x = 0 and y = 0 and self = demo_renderer and im = demo_canvas
            and hs = "[A8]", THEN conjunct1, rule_format, OF i]
          highlight_fill [where x = 0 and y = 0 and self = demo_renderer and im = demo_canvas
            and hs = "[]", THEN conjunct1, rule_format, OF i]
    by (simp add: demo_renderer_simps A8_def default_SquareConfig_def
          SquareConfig_highlight_color_def SquareConfig_color_def)
qed


section \<open>Highlighting changes one cell only\<close>

lemma div_cell: 
  fixes s a x :: int
  assumes "0 < s"
  shows "a div s = x \<longleftrightarrow> x * s \<le> a \<and> a < x * s + s"
proof
  assume "a div s = x"
  then have x: "x = a div s" by simp
  have "s * (a div s) + a mod s = a" by (rule mult_div_mod_eq)
  moreover have "0 \<le> a mod s" "a mod s < s" using assms by simp_all
  ultimately show "x * s \<le> a \<and> a < x * s + s"
    unfolding x mult.commute [of "a div s" s] by linarith
next
  assume b: "x * s \<le> a \<and> a < x * s + s"
  have "a = s * x + (a - x * s)" by (simp add: algebra_simps)
  moreover have "0 \<le> a - x * s" "a - x * s < s" using b by simp_all
  ultimately show "a div s = x" by (rule int_div_pos_eq)
qed

lemma later_board: "later (board_cells [0..7])"
  by code_simp


lemma in_canvas_pos: "in_canvas s p \<Longrightarrow> 0 < s"
  by (auto simp: in_canvas_def)

lemma cell_of_in_board: "in_canvas s p \<Longrightarrow> in_board (cell_of s p)"
proof -
  assume c: "in_canvas s p"
  then have s: "0 < s" by (rule in_canvas_pos)
  obtain x y where xy: "fst p div s = x" "snd p div s = y" by simp
  from xy(1) have x: "x * s \<le> fst p" "fst p < x * s + s"
    by (simp_all add: div_cell [OF s])
  from xy(2) have y: "y * s \<le> snd p" "snd p < y * s + s"
    by (simp_all add: div_cell [OF s])
  have "0 \<le> x"
  proof (rule ccontr)
    assume "\<not> 0 \<le> x"
    then have "x + 1 \<le> 0" by simp
    then have "(x + 1) * s \<le> 0 * s" using s by (intro mult_right_mono) simp_all
    with x(2) c show False by (simp add: in_canvas_def algebra_simps)
  qed
  moreover have "x < 8"
  proof (rule ccontr)
    assume "\<not> x < 8"
    then have "8 \<le> x" by simp
    then have "8 * s \<le> x * s" using s by (intro mult_right_mono) simp_all
    with x(1) c show False by (simp add: in_canvas_def)
  qed
  moreover have "0 \<le> y"
  proof (rule ccontr)
    assume "\<not> 0 \<le> y"
    then have "y + 1 \<le> 0" by simp
    then have "(y + 1) * s \<le> 0 * s" using s by (intro mult_right_mono) simp_all
    with y(2) c show False by (simp add: in_canvas_def algebra_simps)
  qed
  moreover have "y < 8"
  proof (rule ccontr)
    assume "\<not> y < 8"
    then have "8 \<le> y" by simp
    then have "8 * s \<le> y * s" using s by (intro mult_right_mono) simp_all
    with y(1) c show False by (simp add: in_canvas_def)
  qed
  ultimately show ?thesis
    by (simp add: in_board_def cell_of_def xy)
qed

text \<open>A pixel of the box of a cell lies in the cell or in one of the three cells to the
  right of it and below it.\<close>

lemma box_cells:
  fixes s px py x y :: int
  assumes s: "0 < s"
    and box: "x * s \<le> px" "px \<le> x * s + s" "y * s \<le> py" "py \<le> y * s + s"
  shows "cell_of s (px, py) = (x, y) \<or> cell_of s (px, py) \<in> set (neighbours (x, y))"
proof -
  have cx: "px div s = x \<or> px div s = x + 1"
  proof (cases "px < x * s + s")
    case True
    with box(1) have "px div s = x" by (simp add: div_cell [OF s])
    then show ?thesis by simp
  next
    case False
    with box(2) have "px = (x + 1) * s" by (simp add: algebra_simps)
    then have "px div s = x + 1" using s by simp
    then show ?thesis by simp
  qed
  have cy: "py div s = y \<or> py div s = y + 1"
  proof (cases "py < y * s + s")
    case True
    with box(3) have "py div s = y" by (simp add: div_cell [OF s])
    then show ?thesis by simp
  next
    case False
    with box(4) have "py = (y + 1) * s" by (simp add: algebra_simps)
    then have "py div s = y + 1" using s by simp
    then show ?thesis by simp
  qed
  from cx cy show ?thesis
    by (auto simp: cell_of_def neighbours_def)
qed

lemma highlighted_cell:
  assumes "in_board (x, y)" "x + (7 - y) * 8 = sq"
  shows "square_file sq = x" "7 - square_rank sq = y"
proof -
  from assms(1) have r: "0 \<le> x" "x < 8" "0 \<le> y" "y < 8"
    by (simp_all add: in_board_def)
  show "square_file sq = x"
    using r assms(2) unfolding square_file_def by presburger
  show "7 - square_rank sq = y"
    using r assms(2) unfolding square_rank_def by presburger
qed

lemma rect_step:
  assumes canvas: "in_canvas s (px, py)"
    and cell: "in_board (x, y)"
    and pre: "v1 = v2 \<or> cell_of s (px, py) \<in> set ((x, y) # cs)"
    and out: "\<not> in_cell s sq (px, py)"
    and lat: "list_all (\<lambda>d. in_board d \<longrightarrow> d \<in> set cs) (neighbours (x, y))"
    and f2: "f2 = (if x + (7 - y) * 8 = sq then h else f1)"
  shows "apply_op P (px, py) v1 (Rectangle (cell_box s x y) f1) =
         apply_op P (px, py) v2 (Rectangle (cell_box s x y) f2)
         \<or> cell_of s (px, py) \<in> set cs"
proof -
  from canvas have s: "0 < s" by (rule in_canvas_pos)
  let ?box = "x * s \<le> px \<and> px \<le> x * s + s \<and> y * s \<le> py \<and> py \<le> y * s + s"
  have here: "cell_of s (px, py) = (x, y) \<Longrightarrow> ?box \<and> px < x * s + s \<and> py < y * s + s"
    using div_cell [OF s, of px x] div_cell [OF s, of py y] by (auto simp: cell_of_def)
  show ?thesis
  proof (cases ?box)
    case False
    then have u: "apply_op P (px, py) v (Rectangle (cell_box s x y) f) = v" for v f
      by (auto simp: cell_box_def)
    from False here have "cell_of s (px, py) \<noteq> (x, y)" by blast
    with pre show ?thesis by (auto simp: u)
  next
    case True
    then have u: "apply_op P (px, py) v (Rectangle (cell_box s x y) f) = f" for v f
      by (simp add: cell_box_def)
    show ?thesis
    proof (cases "x + (7 - y) * 8 = sq")
      case False
      with f2 show ?thesis by (simp add: u)
    next
      case hl: True
      from highlighted_cell [OF cell hl] out
      have "\<not> (x * s \<le> px \<and> px < x * s + s \<and> y * s \<le> py \<and> py < y * s + s)"
        by (simp add: in_cell_def)
      with here have "cell_of s (px, py) \<noteq> (x, y)" by blast
      with box_cells [OF s, of x px y py] True
      have nb: "cell_of s (px, py) \<in> set (neighbours (x, y))" by blast
      from cell_of_in_board [OF canvas] nb lat have "cell_of s (px, py) \<in> set cs"
        by (auto simp: list_all_iff)
      then show ?thesis by simp
    qed
  qed
qed


lemma twinE:
  assumes "twin P s p cs a b"
  obtains ia ib where "image a = Some ia" "image b = Some ib" "b = a\<lparr>image := Some ib\<rparr>"
    "square_size a = s" "canvas_size ia = (8 * s, 8 * s)" "canvas_size ib = (8 * s, 8 * s)"
    "in_canvas s p \<Longrightarrow>
       foldl (apply_op P p) (0, 0, 0) (ops ia) = foldl (apply_op P p) (0, 0, 0) (ops ib)
       \<or> cell_of s p \<in> set cs"
  using assms by (auto simp: twin_def split: option.splits)

lemma twin_grow:
  assumes tw: "twin P s p ((x, y) # cs) a b"
    and cell: "in_board (x, y)"
    and out: "\<not> in_cell s sq p"
    and lat: "list_all (\<lambda>d. in_board d \<longrightarrow> d \<in> set cs) (neighbours (x, y))"
  shows "twin P s p cs ((add_ops (cell_ground a [] x y @ t) a)\<lparr>piece_drawer := d\<rparr>)
                       ((add_ops (cell_ground b [sq] x y @ t) b)\<lparr>piece_drawer := d\<rparr>)"
proof -
  from tw obtain ia ib where ia: "image a = Some ia" and ib: "image b = Some ib"
    and b: "b = a\<lparr>image := Some ib\<rparr>" and s: "square_size a = s"
    and sa: "canvas_size ia = (8 * s, 8 * s)" and sb: "canvas_size ib = (8 * s, 8 * s)"
    and px: "in_canvas s p \<Longrightarrow>
       foldl (apply_op P p) (0, 0, 0) (ops ia) = foldl (apply_op P p) (0, 0, 0) (ops ib)
       \<or> cell_of s p \<in> set cs \<or> cell_of s p = (x, y)"
    by (rule twinE) auto
  have same: "square_size b = s" "text_config b = text_config a" "font b = font a"
    "square_config b = square_config a"
    by (subst b, simp add: s)+
  define L where "L = (if enabled (text_config a) then cell_labels a x y else [])"
  define f1 where "f1 = cell_fill a [] x y"
  define f2 where "f2 = cell_fill b [sq] x y"
  have ga: "cell_ground a [] x y = Rectangle (cell_box s x y) f1 # L"
    by (simp add: cell_ground_def L_def f1_def s)
  have lb: "cell_labels b x y = cell_labels a x y"
    by (simp add: cell_labels_def same s)
  have gb: "cell_ground b [sq] x y = Rectangle (cell_box s x y) f2 # L"
    by (simp add: cell_ground_def L_def f2_def same lb)
  have f2: "f2 = (if x + (7 - y) * 8 = sq
                  then SquareConfig_highlight_color (square_config a) ! nat ((x + y) mod 2)
                  else f1)"
    by (simp add: f1_def f2_def cell_fill_def same)
  let ?ia = "ia\<lparr>ops := ops ia @ Rectangle (cell_box s x y) f1 # L @ t\<rparr>"
  let ?ib = "ib\<lparr>ops := ops ib @ Rectangle (cell_box s x y) f2 # L @ t\<rparr>"
  let ?a = "(add_ops (cell_ground a [] x y @ t) a)\<lparr>piece_drawer := d\<rparr>"
  let ?b = "(add_ops (cell_ground b [sq] x y @ t) b)\<lparr>piece_drawer := d\<rparr>"
  have ia': "image ?a = Some ?ia"
    by (simp add: ia ga)
  have ib': "image ?b = Some ?ib"
    by (simp add: ib gb)
  have b': "?b = ?a\<lparr>image := Some ?ib\<rparr>"
    by (subst (2) b) (simp add: add_ops_def ia gb)
  have pix: "foldl (apply_op P p) (0, 0, 0) (ops ?ia) = foldl (apply_op P p) (0, 0, 0) (ops ?ib)
             \<or> cell_of s p \<in> set cs" if c: "in_canvas s p"
  proof -
    obtain qx qy where p: "p = (qx, qy)" by (cases p)
    let ?v1 = "foldl (apply_op P p) (0, 0, 0) (ops ia)"
    let ?v2 = "foldl (apply_op P p) (0, 0, 0) (ops ib)"
    from px [OF c] have pre: "?v1 = ?v2 \<or> cell_of s (qx, qy) \<in> set ((x, y) # cs)"
      by (auto simp: p)
    from rect_step [OF c [unfolded p] cell pre out [unfolded p] lat f2, of P]
    have "apply_op P p ?v1 (Rectangle (cell_box s x y) f1) =
          apply_op P p ?v2 (Rectangle (cell_box s x y) f2) \<or> cell_of s p \<in> set cs"
      by (simp add: p)
    then show ?thesis
      by auto
  qed
  show ?thesis
    unfolding twin_def ia' ib'
    using b' pix by (simp add: s sa sb)
qed


lemma twin_step:
  assumes tw: "twin P s p ((x, y) # cs) a b"
    and cell: "in_board (x, y)"
    and out: "\<not> in_cell s sq p"
    and lat: "list_all (\<lambda>d. in_board d \<longrightarrow> d \<in> set cs) (neighbours (x, y))"
  shows "\<exists>r a' b' w'. render_cell a w [] x y = (r, a', w')
           \<and> render_cell b w [sq] x y = (r, b', w') \<and> twin P s p cs a' b'"
proof -
  from tw obtain ia ib where ia: "image a = Some ia" and ib: "image b = Some ib"
    and b: "b = a\<lparr>image := Some ib\<rparr>" and s: "square_size a = s"
    by (rule twinE) auto
  have same: "board b = board a" "piece_drawer b = piece_drawer a" "square_size b = square_size a"
    by (subst b, simp)+
  note grow = twin_grow [OF tw cell out lat]
  note ca = render_cell_ops [OF cell ia, of w "[]"]
  note cb = render_cell_ops [OF cell ib, of w "[sq]"]
  show ?thesis
  proof (cases "board a (x + (7 - y) * 8)")
    case None
    have keep: "c\<lparr>piece_drawer := piece_drawer a\<rparr> = c" if "piece_drawer c = piece_drawer a" for c
      using that by (cases c) simp
    from grow [where t = "[]" and d = "piece_drawer a"]
    have "twin P s p cs (add_ops (cell_ground a [] x y) a) (add_ops (cell_ground b [sq] x y) b)"
      by (simp add: keep same)
    with None show ?thesis
      by (simp add: ca cb same)
  next
    case (Some piece)
    obtain r drawer w1 where call: "PieceImage_render (piece_drawer a) w piece = (r, drawer, w1)"
      by (cases "PieceImage_render (piece_drawer a) w piece") auto
    show ?thesis
    proof (cases r)
      case (Inl e)
      with Some call grow [where t = "[]" and d = drawer] show ?thesis
        by (simp add: ca cb same)
    next
      case (Inr glyph)
      with Some call grow [where t = "[Paste glyph (x * square_size a, y * square_size a)]" and d = drawer]
      show ?thesis
        by (simp add: ca cb same)
    qed
  qed
qed

lemma twin_cells:
  assumes out: "\<not> in_cell s sq p"
  shows "\<forall>c\<in>set cs. in_board c \<Longrightarrow> later cs \<Longrightarrow> twin P s p cs a b \<Longrightarrow>
         \<exists>r a' b' w'. render_cells a w [] cs = (r, a', w')
           \<and> render_cells b w [sq] cs = (r, b', w')
           \<and> (\<forall>u. r = Inr u \<longrightarrow> twin P s p [] a' b')"
proof (induction cs arbitrary: a b w)
  case Nil
  then show ?case by simp
next
  case (Cons c cs)
  obtain x y where c: "c = (x, y)" by (cases c)
  from Cons.prems(1) have cell: "in_board (x, y)" and rest: "\<forall>c\<in>set cs. in_board c"
    by (simp_all add: c)
  from Cons.prems(2) have lat: "list_all (\<lambda>d. in_board d \<longrightarrow> d \<in> set cs) (neighbours (x, y))"
    and lat': "later cs"
    by (simp_all add: c)
  from twin_step [OF Cons.prems(3) [unfolded c] cell out lat, of w]
  obtain r a1 b1 w1 where ra: "render_cell a w [] x y = (r, a1, w1)"
    and rb: "render_cell b w [sq] x y = (r, b1, w1)" and tw: "twin P s p cs a1 b1"
    by blast
  show ?case
  proof (cases r)
    case (Inl e)
    with ra rb show ?thesis by (simp add: c)
  next
    case (Inr u)
    with ra rb Cons.IH [OF rest lat' tw, of w1] show ?thesis
      by (simp add: c)
  qed
qed

text \<open>Claim C9. For every position and every square \<open>sq\<close>, \<open>render()\<close> and
  \<open>render(sq)\<close>, started from the same state, either raise the same error or return
  canvases of the same size that have the same colour at every pixel outside the cell of
  \<open>sq\<close>. (The rectangle of a cell covers one more column and one more row than the
  cell; the cells drawn later paint over them.)\<close>

theorem highlight_frame:
  assumes out: "\<not> in_cell (square_size self) sq p"
  shows "case (fst (FenToImage_render self w []), fst (FenToImage_render self w [sq])) of
           (Inr im1, Inr im2) \<Rightarrow>
             canvas_size im1 = canvas_size im2 \<and> getpixel P im1 p = getpixel P im2 p
         | (Inl e1, Inl e2) \<Rightarrow> e1 = e2
         | _ \<Rightarrow> False"
proof (cases "init_image self w")
  case (Inl e)
  then show ?thesis
    by (simp add: FenToImage_render_def)
next
  case (Inr self1)
  define s where "s = square_size self"
  from Inr have s1: "self1 = self\<lparr>image := Some \<lparr>canvas_size = (s * 8, s * 8), ops = []\<rparr>\<rparr>"
    by (auto simp: init_image_def Let_def s_def split: if_splits)
  have tw: "twin P s p (board_cells [0..7]) self1 self1"
    by (simp add: twin_def s1 s_def)
  have cells: "\<forall>c\<in>set (board_cells [0..7]). in_board c"
    by (blast intro: board_cells_in_board)
  from twin_cells [OF out [folded s_def] cells later_board tw, of w]
  obtain r a b w1 where ra: "render_cells self1 w [] (board_cells [0..7]) = (r, a, w1)"
    and rb: "render_cells self1 w [sq] (board_cells [0..7]) = (r, b, w1)"
    and fin: "\<forall>u. r = Inr u \<longrightarrow> twin P s p [] a b"
    by blast
  show ?thesis
  proof (cases r)
    case (Inl e)
    with ra rb show ?thesis
      by (simp add: FenToImage_render_def Inr render_xs_cells)
  next
    case r: (Inr u)
    with fin have "twin P s p [] a b" by simp
    then obtain ia ib where ia: "image a = Some ia" and ib: "image b = Some ib"
      and sa: "canvas_size ia = (8 * s, 8 * s)" and sb: "canvas_size ib = (8 * s, 8 * s)"
      and px: "in_canvas s p \<Longrightarrow>
         foldl (apply_op P p) (0, 0, 0) (ops ia) = foldl (apply_op P p) (0, 0, 0) (ops ib)
         \<or> cell_of s p \<in> set []"
      by (rule twinE) auto
    have "getpixel P ia p = getpixel P ib p"
      using px by (auto simp: getpixel_def sa sb in_canvas_def)
    with r ra rb ia ib sa sb show ?thesis
      by (simp add: FenToImage_render_def Inr render_xs_cells)
  qed
qed


theorem highlight_frame_witness:
  "\<not> in_cell 128 A8 (128, 0)
   \<and> \<not> isl (fst (FenToImage_render demo_empty demo_world []))
   \<and> \<not> isl (fst (FenToImage_render demo_empty demo_world [A8]))
   \<and> getpixel demo_pil (projr (fst (FenToImage_render demo_empty demo_world []))) (128, 0) =
       getpixel demo_pil (projr (fst (FenToImage_render demo_empty demo_world [A8]))) (128, 0)"
proof -
  have s: "square_size demo_empty = 128" "board demo_empty = (\<lambda>sq. None)"
    by (simp_all add: demo_empty_def demo_renderer_simps)
  have out: "\<not> in_cell (square_size demo_empty) A8 (128, 0)"
    by (simp add: s in_cell_def A8_def square_file_def square_rank_def)
  have ok: "\<not> isl (fst (FenToImage_render demo_empty demo_world hs))" for hs
    by (rule render_succeeds) (simp_all add: s demo_world_def)
  from ok [of "[]"] obtain im1 where r1: "fst (FenToImage_render demo_empty demo_world []) = Inr im1"
    by (cases "fst (FenToImage_render demo_empty demo_world [])") auto
  from ok [of "[A8]"] obtain im2 where r2: "fst (FenToImage_render demo_empty demo_world [A8]) = Inr im2"
    by (cases "fst (FenToImage_render demo_empty demo_world [A8])") auto
  from highlight_frame [OF out, where w = demo_world and P = demo_pil]
  have "getpixel demo_pil im1 (128, 0) = getpixel demo_pil im2 (128, 0)"
    by (simp add: r1 r2)
  with out ok show ?thesis
    by (simp add: r1 r2 s)
qed

end
